theory Spec2Isabelle
  imports Main "HOL-Library.AList" "HOL-Library.Word"
begin

section \<open>JavaScript values and strings\<close>

text \<open>
  A JavaScript number, as far as the program computes with one: a whole number (a time
  or a delay in milliseconds, a count) or \<open>NaN\<close>. Fractions are left out.
\<close>

datatype jsnumber = Finite int | NaN

text \<open>
  Message payloads are typed \<open>any\<close> in the source. What travels over the socket is
  JSON, so a payload is a JSON value, or \<open>undefined\<close> when the field is absent.
\<close>

datatype jsvalue =
    JUndefined
  | JNull
  | JBool bool
  | JNumber jsnumber
  | JString string
  | JArray "jsvalue list"
  | JObject "(string \<times> jsvalue) list"

text \<open>\<open>String.prototype.includes\<close>: does \<open>t\<close> occur in \<open>s\<close> as a contiguous piece?\<close>

fun startsWith :: "string \<Rightarrow> string \<Rightarrow> bool" where
  "startsWith s [] = True"
| "startsWith [] (d # t) = False"
| "startsWith (c # s) (d # t) = (c = d \<and> startsWith s t)"

fun str_includes :: "string \<Rightarrow> string \<Rightarrow> bool" where
  "str_includes [] t = (t = [])"
| "str_includes (c # s) t = (startsWith (c # s) t \<or> str_includes s t)"

section \<open>HotReloadService: data\<close>

record HotReloadConfig =
  enabled :: bool
  debounceDelay :: jsnumber
  incrementalCompilation :: bool
  swiftUIPreviewMode :: bool
  autoSave :: bool
  excludePatterns :: "string list"

datatype ChangeType = UiOnly | Logic | Structure | Dependency

text \<open>A value of the \<open>changeQueue\<close> map: \<open>{ timestamp, content }\<close>.\<close>

record Change =
  timestamp :: int
  content :: string

text \<open>
  A JavaScript \<open>Map\<close> iterates in insertion order and \<open>set\<close> on a key already present
  replaces the value where the key stands. An association list with \<open>AList.update\<close>
  for \<open>set\<close>, \<open>map_of\<close> for \<open>get\<close> and \<open>[]\<close> after \<open>clear\<close> behaves the same.
\<close>

type_synonym ChangeQueue = "(string \<times> Change) list"

record ChangeAnalysis =
  type :: ChangeType
  files :: "string list"
  affectedComponents :: "string list"
  requiresFullRebuild :: bool
  estimatedRebuildTime :: nat

section \<open>HotReloadService.analyzeChanges\<close>

text \<open>
  The three variables the loop of \<open>analyzeChanges\<close> assigns: \<open>changeType\<close>,
  \<open>requiresFullRebuild\<close> and \<open>affectedComponents\<close>.
\<close>

record AnalysisVars =
  av_changeType :: ChangeType
  av_requiresFullRebuild :: bool
  av_affectedComponents :: "string list"

definition isSwiftUIView :: "string \<Rightarrow> Change \<Rightarrow> bool" where
  "isSwiftUIView filePath change \<longleftrightarrow>
     str_includes filePath ''View.swift'' \<or> str_includes (content change) ''@State''
     \<or> str_includes (content change) ''View {''"

definition isStructuralChange :: "Change \<Rightarrow> bool" where
  "isStructuralChange change \<longleftrightarrow>
     str_includes (content change) ''import '' \<or> str_includes (content change) ''class ''
     \<or> str_includes (content change) ''struct '' \<or> str_includes (content change) ''enum ''
     \<or> str_includes (content change) ''protocol ''"

definition isDependencyChange :: "string \<Rightarrow> Change \<Rightarrow> bool" where
  "isDependencyChange filePath change \<longleftrightarrow>
     str_includes filePath ''Package.swift'' \<or> str_includes (content change) ''@main''"

text \<open>
  One pass of the loop body, the three \<open>if\<close> statements in the order of the source.
  \<open>basename\<close> is Node's \<open>path.basename\<close>, which is not code of this repository.
\<close>

definition analyzeFile ::
  "(string \<Rightarrow> string \<Rightarrow> string) \<Rightarrow> AnalysisVars \<Rightarrow> string \<times> Change \<Rightarrow> AnalysisVars" where
  "analyzeFile basename v entry =
     (let filePath = fst entry; change = snd entry;
          v1 = (if isSwiftUIView filePath change
                then v\<lparr>av_changeType := UiOnly,
                       av_affectedComponents :=
                         av_affectedComponents v @ [basename filePath ''.swift'']\<rparr>
                else v);
          v2 = (if isStructuralChange change
                then v1\<lparr>av_changeType := Structure, av_requiresFullRebuild := True\<rparr>
                else v1);
          v3 = (if isDependencyChange filePath change
                then v2\<lparr>av_changeType := Dependency, av_requiresFullRebuild := True\<rparr>
                else v2)
      in v3)"

definition estimateRebuildTime :: "ChangeType \<Rightarrow> nat \<Rightarrow> nat" where
  "estimateRebuildTime t n =
     (case t of
        UiOnly \<Rightarrow> min (n * 200) 2000
      | Logic \<Rightarrow> min (n * 500) 5000
      | Structure \<Rightarrow> min (n * 1000) 15000
      | Dependency \<Rightarrow> 30000)"

definition analyzeChanges ::
  "(string \<Rightarrow> string \<Rightarrow> string) \<Rightarrow> ChangeQueue \<Rightarrow> ChangeAnalysis" where
  "analyzeChanges basename queue =
     (let changedFiles = map fst queue;
          v = foldl (analyzeFile basename)
                \<lparr>av_changeType = Logic, av_requiresFullRebuild = False,
                 av_affectedComponents = []\<rparr> queue
      in \<lparr>type = av_changeType v,
          files = changedFiles,
          affectedComponents = av_affectedComponents v,
          requiresFullRebuild = av_requiresFullRebuild v,
          estimatedRebuildTime = estimateRebuildTime (av_changeType v) (length changedFiles)\<rparr>)"

section \<open>HotReloadService: state\<close>

text \<open>A value of the \<open>buildCache\<close> map: \<open>{ content, timestamp, hash }\<close>.\<close>

record BuildCacheEntry =
  cache_content :: string
  cache_timestamp :: int
  cache_hash :: string

text \<open>
  \<open>errors\<close> is an optional property; \<open>warnings\<close> holds whatever the server's
  response carried (\<open>JUndefined\<close> when the property is absent).
\<close>

record HotReloadResult =
  success :: bool
  duration :: int
  changeType :: string
  errors :: "string list option"
  warnings :: jsvalue

text \<open>
  The timer armed by \<open>setTimeout\<close> in \<open>triggerHotReload\<close>: the flag its closure
  captured and the time it is due. \<open>None\<close> in the state stands for "no timer armed"
  (the source keeps the stale handle of a timer that has fired, and \<open>clearTimeout\<close>
  on such a handle does nothing).
\<close>

record DebounceTimer =
  dt_forceFullRebuild :: bool
  dt_due :: int

text \<open>
  The fields of the class that the reload pipeline reads or writes, and the VS Code
  settings section \<open>ios-vscode.hotReload\<close> that \<open>updateConfiguration\<close> writes.
  The status bar item, the output channel and the notifications are write-only user
  interface and are left out.
\<close>

record HotReloadService =
  config :: HotReloadConfig
  debounceTimer :: "DebounceTimer option"
  changeQueue :: ChangeQueue
  lastSuccessfulBuild :: "(string \<times> string) list"
  buildCache :: "(string \<times> BuildCacheEntry) list"
  isReloading :: bool
  reloadHistory :: "HotReloadResult list"
  settings :: "string \<Rightarrow> jsvalue option"

definition defaultConfig :: HotReloadConfig where
  "defaultConfig =
     \<lparr>enabled = True, debounceDelay = Finite 1000, incrementalCompilation = True,
      swiftUIPreviewMode = True, autoSave = True,
      excludePatterns = [''**/Tests/**'', ''**/*.test.swift'']\<rparr>"

text \<open>The field initialisers of the class.\<close>

definition initialService :: HotReloadService where
  "initialService =
     \<lparr>config = defaultConfig, debounceTimer = None, changeQueue = [],
      lastSuccessfulBuild = [], buildCache = [], isReloading = False,
      reloadHistory = [], settings = (\<lambda>key. None)\<rparr>"

section \<open>HotReloadService: the change queue\<close>

text \<open>
  \<open>pattern.replace(/\*\*/g, ".*").replace(/\*/g, "[^/]*")\<close>: both replacements go
  left to right over non-overlapping matches, the second over the result of the first.
\<close>

fun replaceStarStar :: "string \<Rightarrow> string" where
  "replaceStarStar (CHR ''*'' # CHR ''*'' # s) = ''.*'' @ replaceStarStar s"
| "replaceStarStar (c # s) = c # replaceStarStar s"
| "replaceStarStar [] = []"

fun replaceStar :: "string \<Rightarrow> string" where
  "replaceStar (CHR ''*'' # s) = ''[^/]*'' @ replaceStar s"
| "replaceStar (c # s) = c # replaceStar s"
| "replaceStar [] = []"

text \<open>
  \<open>regexTest source s\<close> is \<open>new RegExp(source).test(s)\<close>, the regular expression
  engine of the runtime: \<open>None\<close> when \<open>new RegExp\<close> throws a \<open>SyntaxError\<close> because the
  source is not a regular expression. \<open>Array.prototype.some\<close> asks the patterns in order
  and stops at the first that matches, so the error of a pattern is the error of
  \<open>shouldExcludeFile\<close> only when no pattern before it matched.
\<close>

fun somePattern :: "(string \<Rightarrow> string \<Rightarrow> bool option) \<Rightarrow> string list \<Rightarrow> string \<Rightarrow> bool option" where
  "somePattern regexTest [] filePath = Some False"
| "somePattern regexTest (pattern # rest) filePath =
     (case regexTest (replaceStar (replaceStarStar pattern)) filePath of
        None \<Rightarrow> None
      | Some matches \<Rightarrow> if matches then Some True else somePattern regexTest rest filePath)"

definition shouldExcludeFile ::
  "(string \<Rightarrow> string \<Rightarrow> bool option) \<Rightarrow> HotReloadConfig \<Rightarrow> string \<Rightarrow> bool option" where
  "shouldExcludeFile regexTest cfg filePath =
     somePattern regexTest (excludePatterns cfg) filePath"

text \<open>
  The time \<open>setTimeout\<close> waits. The runtime (Node, as the type \<open>NodeJS.Timeout\<close> of the
  handle says) takes a delay of 1 to 2147483647 milliseconds as it is and replaces any
  other, \<open>NaN\<close> included, by 1 millisecond.
\<close>

definition setTimeoutDelay :: "jsnumber \<Rightarrow> int" where
  "setTimeoutDelay delay =
     (case delay of
        Finite n \<Rightarrow> if 1 \<le> n \<and> n \<le> 2147483647 then n else 1
      | NaN \<Rightarrow> 1)"

definition triggerHotReload :: "bool \<Rightarrow> int \<Rightarrow> HotReloadService \<Rightarrow> HotReloadService" where
  "triggerHotReload forceFullRebuild now s =
     s\<lparr>debounceTimer :=
         Some \<lparr>dt_forceFullRebuild = forceFullRebuild,
               dt_due = now + setTimeoutDelay (debounceDelay (config s))\<rparr>\<rparr>"

text \<open>The second argument of \<open>handleFileChange\<close>: \<open>"change" | "create" | "delete"\<close>.\<close>

datatype FileEvent = OnChange | OnCreate | OnDelete

text \<open>
  The last two statements of \<open>handleFileChange\<close>: \<open>this.changeQueue.set\<close> with the
  reading \<open>now\<close> of \<open>Date.now()\<close>, and \<open>this.triggerHotReload()\<close>.
\<close>

definition recordChange :: "string \<Rightarrow> string \<Rightarrow> int \<Rightarrow> HotReloadService \<Rightarrow> HotReloadService" where
  "recordChange relativePath c now s =
     triggerHotReload False now
       (s\<lparr>changeQueue :=
            AList.update relativePath \<lparr>timestamp = now, content = c\<rparr> (changeQueue s)\<rparr>)"

text \<open>
  \<open>handleFileChange\<close> is an \<open>async\<close> function. A call for a change or a creation that
  passes the guards is suspended at \<open>await document.save()\<close> (a change of a dirty
  document with \<open>autoSave\<close>) and at \<open>await readFile\<close>, and other callbacks of the service
  run before it goes on; neither \<open>await\<close> touches a field of the class. A call for a
  deletion has no \<open>await\<close> and runs to its end at once. The model has one function for
  the stretch up to the first \<open>await\<close> and one for the stretch after the last.

  What a call has come to when it first gives up control: it has returned or thrown
  without a record (\<open>Returned\<close>), it has recorded the deletion and returned
  (\<open>Recorded\<close>, with the new state), or it waits for the file (\<open>Suspended\<close>).
\<close>

datatype FileChangeCall = Returned | Recorded HotReloadService | Suspended

text \<open>
  The first stretch. From outside come: \<open>connected\<close>, the answer of
  \<open>serverConnection.isConnected()\<close>; \<open>relativePath\<close>, the workspace-relative path of
  the URI; \<open>now\<close>, the reading of \<open>Date.now()\<close>. A \<open>SyntaxError\<close> of
  \<open>shouldExcludeFile\<close> ends the call like a \<open>return\<close>.
\<close>

definition handleFileChange_start ::
  "(string \<Rightarrow> string \<Rightarrow> bool option) \<Rightarrow> bool \<Rightarrow> string \<Rightarrow> FileEvent \<Rightarrow> int
     \<Rightarrow> HotReloadService \<Rightarrow> FileChangeCall" where
  "handleFileChange_start regexTest connected relativePath event now s =
     (if \<not> enabled (config s) \<or> \<not> connected then Returned
      else
        (case shouldExcludeFile regexTest (config s) relativePath of
           None \<Rightarrow> Returned
         | Some excluded \<Rightarrow>
             if excluded then Returned
             else if event \<noteq> OnDelete then Suspended
             else Recorded (recordChange relativePath [] now s)))"

text \<open>
  The second stretch, of a suspended call. \<open>fileContent\<close> is what \<open>readFile\<close> gave;
  it is \<open>None\<close> when \<open>document.save()\<close> threw (the call ends with that error) or
  \<open>readFile\<close> threw (the error is logged and the call returns).
\<close>

definition handleFileChange_resume ::
  "string \<Rightarrow> string option \<Rightarrow> int \<Rightarrow> HotReloadService \<Rightarrow> HotReloadService" where
  "handleFileChange_resume relativePath fileContent now s =
     (case fileContent of
        None \<Rightarrow> s
      | Some c \<Rightarrow> recordChange relativePath c now s)"

definition handleConfigChange :: "int \<Rightarrow> HotReloadService \<Rightarrow> HotReloadService" where
  "handleConfigChange now s = triggerHotReload True now (s\<lparr>buildCache := []\<rparr>)"

section \<open>HotReloadService: the build cache\<close>

text \<open>
  \<open>hashContent\<close>. \<open>hash << 5\<close> and \<open>hash & hash\<close> work on 32-bit integers and
  the subtraction and addition in between stay far below \<open>2^53\<close>, so every round is
  arithmetic modulo \<open>2^32\<close>, read back as a signed number. A \<open>char\<close> stands for one
  code unit of the string.
\<close>

definition hashStep :: "32 word \<Rightarrow> char \<Rightarrow> 32 word" where
  "hashStep hash c = push_bit 5 hash - hash + of_nat (of_char c)"

text \<open>\<open>Number.prototype.toString\<close> on an integer: decimal digits, \<open>-\<close> in front of a negative one.\<close>

fun natToString :: "nat \<Rightarrow> string" where
  "natToString n =
     (if n < 10 then [''0123456789'' ! n]
      else natToString (n div 10) @ [''0123456789'' ! (n mod 10)])"

definition intToString :: "int \<Rightarrow> string" where
  "intToString i = (if i < 0 then CHR ''-'' # natToString (nat (- i)) else natToString (nat i))"

definition hashContent :: "string \<Rightarrow> string" where
  "hashContent c = intToString (sint (foldl hashStep 0 c))"

definition cacheFile :: "HotReloadService \<Rightarrow> string \<times> Change \<Rightarrow> HotReloadService" where
  "cacheFile s entry =
     (let filePath = fst entry; change = snd entry
      in s\<lparr>buildCache :=
             AList.update filePath
               \<lparr>cache_content = content change, cache_timestamp = timestamp change,
                cache_hash = hashContent (content change)\<rparr>
               (buildCache s),
           lastSuccessfulBuild :=
             AList.update filePath (content change) (lastSuccessfulBuild s)\<rparr>)"

definition updateBuildCache :: "HotReloadService \<Rightarrow> HotReloadService" where
  "updateBuildCache s = foldl cacheFile s (changeQueue s)"

definition cacheEntryValue :: "BuildCacheEntry \<Rightarrow> jsvalue" where
  "cacheEntryValue e =
     JObject [(''content'', JString (cache_content e)),
              (''timestamp'', JNumber (Finite (cache_timestamp e))),
              (''hash'', JString (cache_hash e))]"

definition getBuildCacheForFiles :: "HotReloadService \<Rightarrow> string list \<Rightarrow> jsvalue" where
  "getBuildCacheForFiles s fs =
     JObject (concat (map (\<lambda>file. case map_of (buildCache s) file of
                                     None \<Rightarrow> []
                                   | Some e \<Rightarrow> [(file, cacheEntryValue e)]) fs))"

section \<open>HotReloadService: the reload strategies\<close>

text \<open>The wire message \<open>{ type, data, id? }\<close>.\<close>

record ServerMessage =
  msg_type :: string
  msg_data :: jsvalue
  msg_id :: "string option"

text \<open>
  \<open>await this.serverConnection.sendMessage(m)\<close> either yields the response payload
  (\<open>Inr\<close>) or throws an error, of which the strategies read \<open>error.message\<close>
  (\<open>Inl\<close>). The far end is a parameter \<open>send\<close> of the strategies.
\<close>

type_synonym Remote = "ServerMessage \<Rightarrow> string + jsvalue"

text \<open>
  Reading a property of a payload. \<open>None\<close> is the \<open>TypeError\<close> of reading a
  property of \<open>undefined\<close> or \<open>null\<close>. Only used with the keys \<open>warnings\<close> and
  \<open>message\<close>, which no string, number, boolean or array has.
\<close>

fun getProp :: "jsvalue \<Rightarrow> string \<Rightarrow> jsvalue option" where
  "getProp JUndefined key = None"
| "getProp JNull key = None"
| "getProp (JObject kvs) key =
     Some (case map_of kvs key of None \<Rightarrow> JUndefined | Some v \<Rightarrow> v)"
| "getProp v key = Some JUndefined"

text \<open>The message of that \<open>TypeError\<close>, as V8 words it.\<close>

definition typeErrorMessage :: "jsvalue \<Rightarrow> string \<Rightarrow> string" where
  "typeErrorMessage v key =
     ''Cannot read properties of '' @ (if v = JNull then ''null'' else ''undefined'')
       @ '' (reading '' @ [CHR 0x27] @ key @ [CHR 0x27] @ '')''"

text \<open>
  The two \<open>for\<close> loops that send one message per changed file: the first failure
  leaves the loop. \<open>this.changeQueue.get(filePath)!\<close> is \<open>undefined\<close> for a path not
  in the queue, and reading \<open>content\<close> of it throws.
\<close>

fun sendEach ::
  "Remote \<Rightarrow> ChangeQueue \<Rightarrow> (string \<Rightarrow> Change \<Rightarrow> ServerMessage) \<Rightarrow> string list
     \<Rightarrow> string + unit" where
  "sendEach send queue mk [] = Inr ()"
| "sendEach send queue mk (filePath # rest) =
     (case map_of queue filePath of
        None \<Rightarrow> Inl (typeErrorMessage JUndefined ''content'')
      | Some change \<Rightarrow>
          (case send (mk filePath change) of
             Inl e \<Rightarrow> Inl e
           | Inr r \<Rightarrow> sendEach send queue mk rest))"

text \<open>
  In the three strategies \<open>elapsed\<close> is the reading \<open>Date.now() - startTime\<close> taken
  on success.
\<close>

definition performSwiftUIPreviewReload ::
  "Remote \<Rightarrow> int \<Rightarrow> HotReloadService \<Rightarrow> ChangeAnalysis \<Rightarrow> string + HotReloadResult" where
  "performSwiftUIPreviewReload send elapsed s analysis =
     (case sendEach send (changeQueue s)
             (\<lambda>filePath change.
                \<lparr>msg_type = ''swiftui_preview_update'',
                 msg_data = JObject [(''path'', JString filePath),
                                     (''content'', JString (content change)),
                                     (''components'',
                                      JArray (map JString (affectedComponents analysis)))],
                 msg_id = None\<rparr>)
             (files analysis) of
        Inl e \<Rightarrow> Inl (''SwiftUI preview reload failed: '' @ e)
      | Inr u \<Rightarrow>
          Inr \<lparr>success = True, duration = elapsed, changeType = ''SwiftUI Preview'',
               errors = None, warnings = JUndefined\<rparr>)"

definition performIncrementalReload ::
  "Remote \<Rightarrow> int \<Rightarrow> HotReloadService \<Rightarrow> ChangeAnalysis \<Rightarrow> string + HotReloadResult" where
  "performIncrementalReload send elapsed s analysis =
     (case send \<lparr>msg_type = ''incremental_build'',
                 msg_data = JObject [(''changedFiles'', JArray (map JString (files analysis))),
                                     (''buildCache'',
                                      getBuildCacheForFiles s (files analysis))],
                 msg_id = None\<rparr> of
        Inl e \<Rightarrow> Inl (''Incremental reload failed: '' @ e)
      | Inr response \<Rightarrow>
          (case send \<lparr>msg_type = ''apply_incremental_update'', msg_data = response,
                      msg_id = None\<rparr> of
             Inl e \<Rightarrow> Inl (''Incremental reload failed: '' @ e)
           | Inr r \<Rightarrow>
               (case getProp response ''warnings'' of
                  None \<Rightarrow>
                    Inl (''Incremental reload failed: ''
                           @ typeErrorMessage response ''warnings'')
                | Some w \<Rightarrow>
                    Inr \<lparr>success = True, duration = elapsed, changeType = ''Incremental'',
                         errors = None, warnings = w\<rparr>)))"

definition performFullReload ::
  "Remote \<Rightarrow> int \<Rightarrow> HotReloadService \<Rightarrow> ChangeAnalysis \<Rightarrow> string + HotReloadResult" where
  "performFullReload send elapsed s analysis =
     (case sendEach send (changeQueue s)
             (\<lambda>filePath change.
                \<lparr>msg_type = ''sync_file'',
                 msg_data = JObject [(''path'', JString filePath),
                                     (''content'', JString (content change)),
                                     (''lastModified'', JNumber (Finite (timestamp change)))],
                 msg_id = None\<rparr>)
             (files analysis) of
        Inl e \<Rightarrow> Inl (''Full reload failed: '' @ e)
      | Inr u \<Rightarrow>
          (case send \<lparr>msg_type = ''build_project'', msg_data = JObject [], msg_id = None\<rparr> of
             Inl e \<Rightarrow> Inl (''Full reload failed: '' @ e)
           | Inr b \<Rightarrow>
               (case send \<lparr>msg_type = ''run_project'', msg_data = JObject [],
                           msg_id = None\<rparr> of
                  Inl e \<Rightarrow> Inl (''Full reload failed: '' @ e)
                | Inr r \<Rightarrow>
                    Inr \<lparr>success = True, duration = elapsed, changeType = ''Full Rebuild'',
                         errors = None, warnings = JUndefined\<rparr>)))"

datatype Strategy = SwiftuiPreview | Incremental | Full

definition getReloadStrategy :: "HotReloadConfig \<Rightarrow> ChangeAnalysis \<Rightarrow> Strategy" where
  "getReloadStrategy cfg analysis =
     (if type analysis = UiOnly \<and> swiftUIPreviewMode cfg \<and> length (files analysis) \<le> 3
      then SwiftuiPreview
      else if incrementalCompilation cfg \<and> \<not> requiresFullRebuild analysis
              \<and> length (files analysis) \<le> 10
      then Incremental
      else Full)"

definition runStrategy ::
  "Remote \<Rightarrow> int \<Rightarrow> HotReloadService \<Rightarrow> Strategy \<Rightarrow> ChangeAnalysis
     \<Rightarrow> string + HotReloadResult" where
  "runStrategy send elapsed s strategy analysis =
     (case strategy of
        SwiftuiPreview \<Rightarrow> performSwiftUIPreviewReload send elapsed s analysis
      | Incremental \<Rightarrow> performIncrementalReload send elapsed s analysis
      | Full \<Rightarrow> performFullReload send elapsed s analysis)"

declare natToString.simps [simp del]

section \<open>HotReloadService.performHotReload\<close>

text \<open>
  \<open>performHotReload\<close> is an \<open>async\<close> function: it runs up to the \<open>await\<close> of the
  chosen strategy, is suspended while the strategy talks to the server (other callbacks
  of the service may run meanwhile), and resumes when the strategy has returned or
  thrown. The model has one function for each of the two stretches and their composition
  for a cycle that nothing interrupts.

  The first stretch: the guard, \<open>analyzeChanges\<close> and the choice of the strategy.
  \<open>None\<close> is the early \<open>return\<close> taken when a cycle is already in progress.
\<close>

definition performHotReload_start ::
  "(string \<Rightarrow> string \<Rightarrow> string) \<Rightarrow> bool \<Rightarrow> HotReloadService
     \<Rightarrow> (HotReloadService \<times> ChangeAnalysis \<times> Strategy) option" where
  "performHotReload_start basename forceFullRebuild s =
     (if isReloading s then None
      else
        (let s1 = s\<lparr>isReloading := True\<rparr>;
             analysis = analyzeChanges basename (changeQueue s1);
             strategy = (if forceFullRebuild \<or> requiresFullRebuild analysis then Full
                         else getReloadStrategy (config s1) analysis)
         in Some (s1, analysis, strategy)))"

definition pushHistory :: "HotReloadResult \<Rightarrow> HotReloadResult list \<Rightarrow> HotReloadResult list" where
  "pushHistory result history =
     (let h = history @ [result] in if length h > 50 then tl h else h)"

text \<open>
  \<open>showReloadResult\<close> writes to the output channel and the notifications only, but it
  can throw: when \<open>result.warnings\<close> is truthy and its \<open>length\<close> is greater than 0 it
  calls \<open>result.warnings.forEach\<close>, which is a \<open>TypeError\<close> for a value that is not an
  array. How the runtime judges a value there is the parameter \<open>forEachError\<close>: the
  message of the error for a \<open>warnings\<close> value on which the call fails, \<open>None\<close> for any
  other (for \<open>undefined\<close> and for arrays in particular). \<open>result.errors\<close> is not set on
  the results of the strategies.
\<close>

definition showReloadResult :: "(jsvalue \<Rightarrow> string option) \<Rightarrow> HotReloadResult \<Rightarrow> string option" where
  "showReloadResult forEachError result = forEachError (warnings result)"

text \<open>The result the \<open>catch\<close> block builds from the message of the error.\<close>

definition failureResult :: "int \<Rightarrow> string \<Rightarrow> HotReloadResult" where
  "failureResult elapsed e =
     \<lparr>success = False, duration = elapsed, changeType = ''error'', errors = Some [e],
      warnings = JUndefined\<rparr>"

text \<open>
  The second stretch: the rest of the \<open>try\<close> block when the strategy returned
  \<open>result\<close> (\<open>Inr\<close>), the \<open>catch\<close> block when the strategy (\<open>Inl\<close>) or
  \<open>showReloadResult\<close> threw (\<open>elapsed\<close> is the reading \<open>Date.now() - startTime\<close>
  there), and the \<open>finally\<close> block after either.
\<close>

definition performHotReload_finish ::
  "(jsvalue \<Rightarrow> string option) \<Rightarrow> string + HotReloadResult \<Rightarrow> int \<Rightarrow> HotReloadService
     \<Rightarrow> HotReloadService" where
  "performHotReload_finish forEachError outcome elapsed s =
     (let (s1, result) =
            (case outcome of
               Inr r \<Rightarrow>
                 (let s2 = (updateBuildCache s)\<lparr>changeQueue := []\<rparr>
                  in case showReloadResult forEachError r of
                       None \<Rightarrow> (s2, r)
                     | Some e \<Rightarrow> (s2, failureResult elapsed e))
             | Inl e \<Rightarrow> (s, failureResult elapsed e))
      in s1\<lparr>isReloading := False,
            reloadHistory := pushHistory result (reloadHistory s1)\<rparr>)"

definition performHotReload ::
  "Remote \<Rightarrow> (string \<Rightarrow> string \<Rightarrow> string) \<Rightarrow> (jsvalue \<Rightarrow> string option) \<Rightarrow> bool \<Rightarrow> int
     \<Rightarrow> HotReloadService \<Rightarrow> HotReloadService" where
  "performHotReload send basename forEachError forceFullRebuild elapsed s =
     (case performHotReload_start basename forceFullRebuild s of
        None \<Rightarrow> s
      | Some (s1, analysis, strategy) \<Rightarrow>
          performHotReload_finish forEachError (runStrategy send elapsed s1 strategy analysis)
            elapsed s1)"

section \<open>HotReloadService: public methods\<close>

definition toggle :: "HotReloadService \<Rightarrow> HotReloadService" where
  "toggle s = s\<lparr>config := (config s)\<lparr>enabled := \<not> enabled (config s)\<rparr>\<rparr>"

definition setEnabled :: "bool \<Rightarrow> HotReloadService \<Rightarrow> HotReloadService" where
  "setEnabled b s = s\<lparr>config := (config s)\<lparr>enabled := b\<rparr>\<rparr>"

text \<open>
  \<open>Partial<HotReloadConfig>\<close>: every property may be missing. \<open>None\<close> is a property
  the object does not have.
\<close>

record PartialConfig =
  new_enabled :: "bool option"
  new_debounceDelay :: "jsnumber option"
  new_incrementalCompilation :: "bool option"
  new_swiftUIPreviewMode :: "bool option"
  new_autoSave :: "bool option"
  new_excludePatterns :: "string list option"

text \<open>\<open>{ ...this.config, ...newConfig }\<close>\<close>

definition mergeConfig :: "HotReloadConfig \<Rightarrow> PartialConfig \<Rightarrow> HotReloadConfig" where
  "mergeConfig cfg newConfig =
     \<lparr>enabled = (case new_enabled newConfig of None \<Rightarrow> enabled cfg | Some v \<Rightarrow> v),
      debounceDelay =
        (case new_debounceDelay newConfig of None \<Rightarrow> debounceDelay cfg | Some v \<Rightarrow> v),
      incrementalCompilation =
        (case new_incrementalCompilation newConfig of
           None \<Rightarrow> incrementalCompilation cfg | Some v \<Rightarrow> v),
      swiftUIPreviewMode =
        (case new_swiftUIPreviewMode newConfig of
           None \<Rightarrow> swiftUIPreviewMode cfg | Some v \<Rightarrow> v),
      autoSave = (case new_autoSave newConfig of None \<Rightarrow> autoSave cfg | Some v \<Rightarrow> v),
      excludePatterns =
        (case new_excludePatterns newConfig of
           None \<Rightarrow> excludePatterns cfg | Some v \<Rightarrow> v)\<rparr>"

text \<open>\<open>Object.entries(newConfig)\<close>, each value as the settings store takes it.\<close>

definition configEntries :: "PartialConfig \<Rightarrow> (string \<times> jsvalue) list" where
  "configEntries newConfig =
     (case new_enabled newConfig of None \<Rightarrow> [] | Some v \<Rightarrow> [(''enabled'', JBool v)])
     @ (case new_debounceDelay newConfig of
          None \<Rightarrow> [] | Some v \<Rightarrow> [(''debounceDelay'', JNumber v)])
     @ (case new_incrementalCompilation newConfig of
          None \<Rightarrow> [] | Some v \<Rightarrow> [(''incrementalCompilation'', JBool v)])
     @ (case new_swiftUIPreviewMode newConfig of
          None \<Rightarrow> [] | Some v \<Rightarrow> [(''swiftUIPreviewMode'', JBool v)])
     @ (case new_autoSave newConfig of None \<Rightarrow> [] | Some v \<Rightarrow> [(''autoSave'', JBool v)])
     @ (case new_excludePatterns newConfig of
          None \<Rightarrow> [] | Some v \<Rightarrow> [(''excludePatterns'', JArray (map JString v))])"

definition updateConfiguration :: "PartialConfig \<Rightarrow> HotReloadService \<Rightarrow> HotReloadService" where
  "updateConfiguration newConfig s =
     s\<lparr>config := mergeConfig (config s) newConfig,
       settings := foldl (\<lambda>m kv. m(fst kv \<mapsto> snd kv)) (settings s) (configEntries newConfig)\<rparr>"

section \<open>HotReloadService: the callbacks, one after the other\<close>

text \<open>
  The service together with the calls that are suspended: the cycles waiting in their
  strategy (for each, the analysis and the strategy it started with) and the calls of
  \<open>handleFileChange\<close> waiting for their file (for each, its \<open>relativePath\<close>).
\<close>

record Reloader =
  service :: HotReloadService
  inProgress :: "(ChangeAnalysis \<times> Strategy) list"
  reading :: "string list"

text \<open>
  What can happen to the service: a watcher reports a file (\<open>FileChanged\<close>, a call
  of \<open>handleFileChange\<close>) or the manifest (\<open>ConfigChanged\<close>); the file of the
  \<open>i\<close>-th waiting call of \<open>handleFileChange\<close> has been saved and read, or that has
  failed (\<open>FileRead\<close>); the debounce timer fires; the user runs the force command or
  changes the configuration; the strategy of the \<open>i\<close>-th suspended cycle returns or
  throws (\<open>StrategySettled\<close>).
\<close>

datatype Event =
    FileChanged bool string FileEvent int
  | FileRead nat "string option" int
  | ConfigChanged int
  | DebounceFired int
  | ForceReload bool
  | StrategySettled nat "string + HotReloadResult" int
  | Toggle
  | SetEnabled bool
  | UpdateConfiguration PartialConfig

text \<open>A call of \<open>performHotReload\<close> up to the point where it is suspended.\<close>

definition callPerformHotReload ::
  "(string \<Rightarrow> string \<Rightarrow> string) \<Rightarrow> bool \<Rightarrow> Reloader \<Rightarrow> Reloader" where
  "callPerformHotReload basename forceFullRebuild r =
     (case performHotReload_start basename forceFullRebuild (service r) of
        None \<Rightarrow> r
      | Some (s1, analysis, strategy) \<Rightarrow>
          r\<lparr>service := s1, inProgress := inProgress r @ [(analysis, strategy)]\<rparr>)"

text \<open>
  \<open>forceReload\<close> returns after a notification when the server is not connected, and
  calls \<open>performHotReload(true)\<close> otherwise. The debounce timer runs its callback, which
  calls \<open>performHotReload\<close> with the captured flag, once it is due.
\<close>

fun step ::
  "(string \<Rightarrow> string \<Rightarrow> bool option) \<Rightarrow> (string \<Rightarrow> string \<Rightarrow> string)
     \<Rightarrow> (jsvalue \<Rightarrow> string option) \<Rightarrow> Reloader \<Rightarrow> Event \<Rightarrow> Reloader" where
  "step regexTest basename forEachError r (FileChanged connected relativePath event now) =
     (case handleFileChange_start regexTest connected relativePath event now (service r) of
        Returned \<Rightarrow> r
      | Recorded s1 \<Rightarrow> r\<lparr>service := s1\<rparr>
      | Suspended \<Rightarrow> r\<lparr>reading := reading r @ [relativePath]\<rparr>)"
| "step regexTest basename forEachError r (FileRead i fileContent now) =
     (if i < length (reading r)
      then r\<lparr>service := handleFileChange_resume (reading r ! i) fileContent now (service r),
             reading := take i (reading r) @ drop (Suc i) (reading r)\<rparr>
      else r)"
| "step regexTest basename forEachError r (ConfigChanged now) =
     r\<lparr>service := handleConfigChange now (service r)\<rparr>"
| "step regexTest basename forEachError r (DebounceFired now) =
     (case debounceTimer (service r) of
        None \<Rightarrow> r
      | Some t \<Rightarrow>
          if now < dt_due t then r
          else callPerformHotReload basename (dt_forceFullRebuild t)
                 (r\<lparr>service := (service r)\<lparr>debounceTimer := None\<rparr>\<rparr>))"
| "step regexTest basename forEachError r (ForceReload connected) =
     (if \<not> connected then r else callPerformHotReload basename True r)"
| "step regexTest basename forEachError r (StrategySettled i outcome elapsed) =
     (if i < length (inProgress r)
      then r\<lparr>service := performHotReload_finish forEachError outcome elapsed (service r),
             inProgress := take i (inProgress r) @ drop (Suc i) (inProgress r)\<rparr>
      else r)"
| "step regexTest basename forEachError r Toggle = r\<lparr>service := toggle (service r)\<rparr>"
| "step regexTest basename forEachError r (SetEnabled b) = r\<lparr>service := setEnabled b (service r)\<rparr>"
| "step regexTest basename forEachError r (UpdateConfiguration newConfig) =
     r\<lparr>service := updateConfiguration newConfig (service r)\<rparr>"

definition initialReloader :: Reloader where
  "initialReloader = \<lparr>service = initialService, inProgress = [], reading = []\<rparr>"

definition run ::
  "(string \<Rightarrow> string \<Rightarrow> bool option) \<Rightarrow> (string \<Rightarrow> string \<Rightarrow> string)
     \<Rightarrow> (jsvalue \<Rightarrow> string option) \<Rightarrow> Event list \<Rightarrow> Reloader" where
  "run regexTest basename forEachError events =
     foldl (step regexTest basename forEachError) initialReloader events"


section \<open>ServerConnection: data\<close>

text \<open>
  The errors a request is rejected with:
  \<^item> \<open>NotConnected\<close> is \<open>new Error("WebSocket not connected")\<close>,
  \<^item> \<open>Timeout\<close> is \<open>new Error("Request timeout")\<close>,
  \<^item> \<open>ConnectionClosed\<close> is \<open>new Error("Connection closed")\<close>,
  \<^item> \<open>RemoteError v\<close> is \<open>new Error(v)\<close> for the \<open>message\<close> property \<open>v\<close> of an
    \<open>error\<close> reply,
  \<^item> \<open>SendFailed e\<close> is whatever \<open>websocket.send\<close> threw.
\<close>

datatype ConnError =
    NotConnected
  | Timeout
  | ConnectionClosed
  | RemoteError jsvalue
  | SendFailed string

datatype Settlement = Resolved jsvalue | Rejected ConnError

datatype ReadyState = CONNECTING | OPEN | CLOSING | CLOSED

text \<open>
  A value of the \<open>pendingRequests\<close> map. \<open>resolve\<close> and \<open>reject\<close> belong to one
  promise, named by a number; \<open>timeout\<close> is the handle \<open>setTimeout\<close> returned, a
  number too.
\<close>

record PendingRequest =
  pr_promise :: nat
  pr_timeout :: nat

text \<open>
  An armed timer: what the closure passed to \<open>setTimeout\<close> captured (\<open>messageId\<close>
  and the \<open>reject\<close> of its promise) and the time it is due.
\<close>

record Timer =
  tm_messageId :: string
  tm_promise :: nat
  tm_due :: int

text \<open>
  The fields of the class that the request bookkeeping uses, and the part of the runtime
  it acts on:
  \<^item> \<open>websocket\<close> is \<open>None\<close> for \<open>null\<close> and the \<open>readyState\<close> of the socket otherwise;
  \<^item> \<open>fileWatcher\<close> tells whether a watcher is held;
  \<^item> \<open>timers\<close> are the armed timers by handle (\<open>clearTimeout\<close> removes one);
  \<^item> \<open>promises\<close> lists every call of a \<open>resolve\<close> or \<open>reject\<close>, in order, with the
    promise it belongs to;
  \<^item> \<open>nextPromise\<close> and \<open>nextTimer\<close> name the next promise and the next handle the
    runtime creates;
  \<^item> \<open>outbox\<close> are the messages given to \<open>websocket.send\<close>;
  \<^item> \<open>dispatched\<close> are the calls of push handlers, \<open>unhandled\<close> the types warned about.
\<close>

record ServerConnection =
  websocket :: "ReadyState option"
  connected :: bool
  fileWatcher :: bool
  pendingRequests :: "(string \<times> PendingRequest) list"
  timers :: "(nat \<times> Timer) list"
  promises :: "(nat \<times> Settlement) list"
  nextPromise :: nat
  nextTimer :: nat
  outbox :: "ServerMessage list"
  dispatched :: "(string \<times> jsvalue) list"
  unhandled :: "string list"

definition initialConnection :: ServerConnection where
  "initialConnection =
     \<lparr>websocket = None, connected = False, fileWatcher = False, pendingRequests = [],
      timers = [], promises = [], nextPromise = 0, nextTimer = 0, outbox = [],
      dispatched = [], unhandled = []\<rparr>"

definition settle :: "nat \<Rightarrow> Settlement \<Rightarrow> ServerConnection \<Rightarrow> ServerConnection" where
  "settle p outcome s = s\<lparr>promises := promises s @ [(p, outcome)]\<rparr>"

definition clearTimeout :: "nat \<Rightarrow> ServerConnection \<Rightarrow> ServerConnection" where
  "clearTimeout t s = s\<lparr>timers := AList.delete t (timers s)\<rparr>"

section \<open>ServerConnection.sendMessage\<close>

text \<open>
  From outside come: \<open>token\<close>, the value of
  \<open>Math.random().toString(36).substr(2, 9)\<close>; \<open>now\<close>, the time of the call;
  \<open>sendError\<close>, \<open>None\<close> when \<open>websocket.send\<close> returns and what it threw otherwise.
  The result is the promise handed to the caller and the new state.
\<close>

definition sendMessage ::
  "ServerMessage \<Rightarrow> string \<Rightarrow> int \<Rightarrow> string option \<Rightarrow> ServerConnection
     \<Rightarrow> nat \<times> ServerConnection" where
  "sendMessage message token now sendError s =
     (let p = nextPromise s;
          s0 = s\<lparr>nextPromise := Suc p\<rparr>
      in if websocket s0 \<noteq> Some OPEN then (p, settle p (Rejected NotConnected) s0)
         else
           (let messageId = token;
                t = nextTimer s0;
                s1 = s0\<lparr>nextTimer := Suc t,
                        timers :=
                          AList.update t
                            \<lparr>tm_messageId = messageId, tm_promise = p,
                             tm_due = now + 30000\<rparr>
                            (timers s0)\<rparr>;
                s2 = s1\<lparr>pendingRequests :=
                          AList.update messageId \<lparr>pr_promise = p, pr_timeout = t\<rparr>
                            (pendingRequests s1)\<rparr>
            in case sendError of
                 None \<Rightarrow> (p, s2\<lparr>outbox := outbox s2 @ [message\<lparr>msg_id := Some messageId\<rparr>]\<rparr>)
               | Some e \<Rightarrow>
                   (p, settle p (Rejected (SendFailed e))
                         ((clearTimeout t s2)
                            \<lparr>pendingRequests :=
                               AList.delete messageId (pendingRequests s2)\<rparr>))))"

text \<open>
  The callback of the timer armed in \<open>sendMessage\<close>. The runtime runs it for an armed
  timer, not before the 30000 milliseconds have passed; the timer is spent after that.
\<close>

definition requestTimeout :: "nat \<Rightarrow> int \<Rightarrow> ServerConnection \<Rightarrow> ServerConnection" where
  "requestTimeout t now s =
     (case map_of (timers s) t of
        None \<Rightarrow> s
      | Some tm \<Rightarrow>
          if now < tm_due tm then s
          else settle (tm_promise tm) (Rejected Timeout)
                 ((clearTimeout t s)
                    \<lparr>pendingRequests :=
                       AList.delete (tm_messageId tm) (pendingRequests s)\<rparr>))"

section \<open>ServerConnection.handleServerMessage\<close>

text \<open>The types \<open>setupMessageHandlers\<close> registers a handler for.\<close>

definition messageHandlers :: "string list" where
  "messageHandlers =
     [''simulator_frame'', ''build_output'', ''device_list'', ''error'', ''file_changed'']"

text \<open>
  \<open>message.id && this.pendingRequests.has(message.id)\<close>: a missing or empty id is
  falsy. In an \<open>error\<close> reply whose \<open>data\<close> is \<open>undefined\<close> or \<open>null\<close>, reading
  \<open>message.data.message\<close> throws after the entry has been deleted; the caller catches
  and logs that, and neither \<open>resolve\<close> nor \<open>reject\<close> is called.
\<close>

definition handleServerMessage :: "ServerMessage \<Rightarrow> ServerConnection \<Rightarrow> ServerConnection" where
  "handleServerMessage message s =
     (case (case msg_id message of
              None \<Rightarrow> None
            | Some i \<Rightarrow> if i = [] then None
                       else map_option (\<lambda>request. (i, request)) (map_of (pendingRequests s) i)) of
        Some (i, request) \<Rightarrow>
          (let s1 = (clearTimeout (pr_timeout request) s)
                      \<lparr>pendingRequests := AList.delete i (pendingRequests s)\<rparr>
           in if msg_type message = ''error''
              then (case getProp (msg_data message) ''message'' of
                      None \<Rightarrow> s1
                    | Some v \<Rightarrow> settle (pr_promise request) (Rejected (RemoteError v)) s1)
              else settle (pr_promise request) (Resolved (msg_data message)) s1)
      | None \<Rightarrow>
          if msg_type message \<in> set messageHandlers
          then s\<lparr>dispatched := dispatched s @ [(msg_type message, msg_data message)]\<rparr>
          else s\<lparr>unhandled := unhandled s @ [msg_type message]\<rparr>)"

section \<open>ServerConnection.handleDisconnection\<close>

definition rejectClosed :: "ServerConnection \<Rightarrow> PendingRequest \<Rightarrow> ServerConnection" where
  "rejectClosed s request =
     settle (pr_promise request) (Rejected ConnectionClosed)
       (clearTimeout (pr_timeout request) s)"

definition handleDisconnection :: "ServerConnection \<Rightarrow> ServerConnection" where
  "handleDisconnection s =
     (let s1 = s\<lparr>connected := False, fileWatcher := False\<rparr>;
          s2 = foldl rejectClosed s1 (map snd (pendingRequests s1))
      in s2\<lparr>pendingRequests := []\<rparr>)"

definition disconnect :: "ServerConnection \<Rightarrow> ServerConnection" where
  "disconnect s = s\<lparr>websocket := None, fileWatcher := False, connected := False\<rparr>"

definition isConnected :: "ServerConnection \<Rightarrow> bool" where
  "isConnected s \<longleftrightarrow> connected s \<and> websocket s = Some OPEN"

section \<open>ServerConnection: the callbacks, one after the other\<close>

text \<open>
  What can happen to the connection: a caller sends a request; a message arrives; a
  request timer fires; the socket or the tunnel closes (\<open>ConnectionLost\<close>, which runs
  \<open>handleDisconnection\<close>); \<open>disconnect()\<close> is called; the socket is replaced or changes
  its \<open>readyState\<close> (\<open>SocketChanged\<close>); \<open>connect\<close> completes (\<open>Established\<close>, which
  sets \<open>connected\<close> after the project sync has created the watcher).
\<close>

datatype ConnEvent =
    Send ServerMessage string int "string option"
  | Arrived ServerMessage
  | TimerFired nat int
  | ConnectionLost
  | Disconnect
  | SocketChanged "ReadyState option"
  | Established

fun connStep :: "ServerConnection \<Rightarrow> ConnEvent \<Rightarrow> ServerConnection" where
  "connStep s (Send message token now sendError) = snd (sendMessage message token now sendError s)"
| "connStep s (Arrived message) = handleServerMessage message s"
| "connStep s (TimerFired t now) = requestTimeout t now s"
| "connStep s ConnectionLost = handleDisconnection s"
| "connStep s Disconnect = disconnect s"
| "connStep s (SocketChanged ws) = s\<lparr>websocket := ws\<rparr>"
| "connStep s Established = s\<lparr>connected := True, fileWatcher := True\<rparr>"

definition connRun :: "ConnEvent list \<Rightarrow> ServerConnection" where
  "connRun events = foldl connStep initialConnection events"

text \<open>
  What holds of the bookkeeping in every state the callbacks can reach: the three maps
  have unique keys; handles and promises in use are older than the next ones; the promise
  of an armed timer has not been settled; two armed timers never share a promise; the
  timer of a pending request is armed and carries the id and the promise of the request.
\<close>

definition wellFormed :: "ServerConnection \<Rightarrow> bool" where
  "wellFormed s \<longleftrightarrow>
     distinct (map fst (pendingRequests s))
     \<and> distinct (map fst (timers s))
     \<and> distinct (map fst (promises s))
     \<and> (\<forall>p \<in> fst ` set (promises s). p < nextPromise s)
     \<and> (\<forall>t tm. map_of (timers s) t = Some tm \<longrightarrow>
            t < nextTimer s \<and> tm_promise tm < nextPromise s
            \<and> tm_promise tm \<notin> fst ` set (promises s))
     \<and> (\<forall>t t' tm tm'. map_of (timers s) t = Some tm \<and> map_of (timers s) t' = Some tm'
            \<and> tm_promise tm = tm_promise tm' \<longrightarrow> t = t')
     \<and> (\<forall>i request. map_of (pendingRequests s) i = Some request \<longrightarrow>
            (\<exists>tm. map_of (timers s) (pr_timeout request) = Some tm
                  \<and> tm_messageId tm = i \<and> tm_promise tm = pr_promise request))"

text \<open>
  What holds of the service in every state the callbacks can reach: at most one cycle is
  suspended, the guard is set exactly while one is, and the queue has unique keys.
\<close>

definition reloaderInv :: "Reloader \<Rightarrow> bool" where
  "reloaderInv r \<longleftrightarrow>
     length (inProgress r) \<le> 1
     \<and> (isReloading (service r) \<longleftrightarrow> inProgress r \<noteq> [])
     \<and> distinct (map fst (changeQueue (service r)))"

section \<open>Properties of the reload pipeline\<close>

lemmas analysis_defs = analyzeChanges_def analyzeFile_def isSwiftUIView_def
  isStructuralChange_def isDependencyChange_def estimateRebuildTime_def

lemmas service_defs = run_def initialReloader_def initialService_def defaultConfig_def
  handleFileChange_start_def handleFileChange_resume_def recordChange_def
  shouldExcludeFile_def setTimeoutDelay_def triggerHotReload_def callPerformHotReload_def
  performHotReload_start_def getReloadStrategy_def handleConfigChange_def

subsection \<open>The guard\<close>

lemma recordChange_frame:
  "isReloading (recordChange p c now s) = isReloading s"
  "config (recordChange p c now s) = config s"
  "distinct (map fst (changeQueue s)) \<Longrightarrow>
     distinct (map fst (changeQueue (recordChange p c now s)))"
  by (simp_all add: recordChange_def triggerHotReload_def distinct_update)

lemma handleFileChange_start_Recorded:
  "handleFileChange_start rt c p e now s = Recorded s1 \<Longrightarrow>
     s1 = recordChange p [] now s \<and> e = OnDelete"
  by (auto simp: handleFileChange_start_def split: if_splits option.splits)

lemma handleConfigChange_frame:
  "isReloading (handleConfigChange now s) = isReloading s"
  "changeQueue (handleConfigChange now s) = changeQueue s"
  by (simp_all add: handleConfigChange_def triggerHotReload_def)

lemma performHotReload_start_Some:
  "performHotReload_start b f s = Some (s1, a, st) \<Longrightarrow>
     \<not> isReloading s \<and> s1 = s\<lparr>isReloading := True\<rparr>"
  by (auto simp: performHotReload_start_def Let_def split: if_splits)

lemma performHotReload_start_None:
  "performHotReload_start b f s = None \<longleftrightarrow> isReloading s"
  by (simp add: performHotReload_start_def Let_def)

lemma performHotReload_finish_guard:
  "isReloading (performHotReload_finish forEachError outcome elapsed s) = False"
  by (simp add: performHotReload_finish_def Let_def split: sum.splits option.splits)

lemma performHotReload_finish_queue:
  "changeQueue (performHotReload_finish forEachError outcome elapsed s) =
     (case outcome of Inl e \<Rightarrow> changeQueue s | Inr r \<Rightarrow> [])"
  by (simp add: performHotReload_finish_def Let_def split: sum.splits option.splits)

lemma callPerformHotReload_inv:
  "reloaderInv r \<Longrightarrow> reloaderInv (callPerformHotReload b f r)"
  by (auto simp: reloaderInv_def callPerformHotReload_def split: option.splits
           dest!: performHotReload_start_Some)

lemma step_inv: "reloaderInv r \<Longrightarrow> reloaderInv (step rt b fe r ev)"
proof (cases ev)
  case (FileChanged c p e now)
  assume inv: "reloaderInv r"
  show ?thesis
  proof (cases "handleFileChange_start rt c p e now (service r)")
    case Returned
    with FileChanged inv show ?thesis by simp
  next
    case (Recorded s1)
    then have "s1 = recordChange p [] now (service r)"
      by (simp add: handleFileChange_start_Recorded)
    with FileChanged Recorded inv show ?thesis
      by (simp add: reloaderInv_def recordChange_frame)
  next
    case Suspended
    with FileChanged inv show ?thesis by (simp add: reloaderInv_def)
  qed
next
  case (FileRead i fc now)
  assume "reloaderInv r"
  with FileRead show ?thesis
    by (simp add: reloaderInv_def handleFileChange_resume_def recordChange_frame
          split: option.splits)
next
  case (ConfigChanged now)
  assume "reloaderInv r"
  with ConfigChanged show ?thesis
    by (simp add: reloaderInv_def handleConfigChange_frame)
next
  case (DebounceFired now)
  assume inv: "reloaderInv r"
  show ?thesis
  proof (cases "debounceTimer (service r)")
    case None
    with DebounceFired inv show ?thesis by simp
  next
    case (Some t)
    have "reloaderInv (r\<lparr>service := (service r)\<lparr>debounceTimer := None\<rparr>\<rparr>)"
      using inv by (simp add: reloaderInv_def)
    then have "reloaderInv (callPerformHotReload b (dt_forceFullRebuild t)
                 (r\<lparr>service := (service r)\<lparr>debounceTimer := None\<rparr>\<rparr>))"
      by (rule callPerformHotReload_inv)
    with DebounceFired Some inv show ?thesis by simp
  qed
next
  case (ForceReload c)
  assume "reloaderInv r"
  with ForceReload show ?thesis by (simp add: callPerformHotReload_inv)
next
  case (StrategySettled i outcome elapsed)
  assume inv: "reloaderInv r"
  show ?thesis
  proof (cases "i < length (inProgress r)")
    case True
    with inv have "i = 0" "length (inProgress r) = 1"
      by (simp_all add: reloaderInv_def)
    with StrategySettled inv show ?thesis
      by (simp add: reloaderInv_def performHotReload_finish_guard performHotReload_finish_queue
               split: sum.splits)
  next
    case False
    with StrategySettled inv show ?thesis by simp
  qed
next
  case Toggle
  assume "reloaderInv r"
  with Toggle show ?thesis by (simp add: reloaderInv_def toggle_def)
next
  case (SetEnabled x)
  assume "reloaderInv r"
  with SetEnabled show ?thesis by (simp add: reloaderInv_def setEnabled_def)
next
  case (UpdateConfiguration p)
  assume "reloaderInv r"
  with UpdateConfiguration show ?thesis by (simp add: reloaderInv_def updateConfiguration_def)
qed

lemma foldl_step_inv: "reloaderInv r \<Longrightarrow> reloaderInv (foldl (step rt b fe) r evs)"
  by (induction evs arbitrary: r) (simp_all add: step_inv)

lemma run_inv: "reloaderInv (run rt b fe evs)"
  unfolding run_def
  by (rule foldl_step_inv) (simp add: reloaderInv_def initialReloader_def initialService_def)


text \<open>
  Claim C1. At most one reload cycle is ever in progress. In every state the callbacks
  can reach at most one cycle is suspended in its strategy, and the guard \<open>isReloading\<close>
  is set exactly then. A call of \<open>performHotReload\<close> that finds the guard set returns
  without starting a cycle and without changing anything. When a cycle ends, with a
  result or with an error, the guard is cleared, so that the next call starts a cycle.
\<close>

theorem single_cycle_in_progress:
  "length (inProgress (run regexTest basename forEachError events)) \<le> 1
   \<and> (isReloading (service (run regexTest basename forEachError events))
        \<longleftrightarrow> inProgress (run regexTest basename forEachError events) \<noteq> [])
   \<and> (isReloading (service r) \<longrightarrow> callPerformHotReload basename force r = r)
   \<and> (isReloading s \<longrightarrow> performHotReload_start basename force s = None
                         \<and> performHotReload send basename forEachError force elapsed s = s)
   \<and> \<not> isReloading (performHotReload_finish forEachError outcome elapsed s)
   \<and> (\<not> isReloading s0 \<longrightarrow> \<not> isReloading (performHotReload send basename forEachError force elapsed s0))
   \<and> performHotReload_start basename force' (performHotReload_finish forEachError outcome elapsed s) \<noteq> None"
proof -
  have inv: "reloaderInv (run regexTest basename forEachError events)" by (rule run_inv)
  have a: "length (inProgress (run regexTest basename forEachError events)) \<le> 1"
    using inv by (simp add: reloaderInv_def)
  have b: "isReloading (service (run regexTest basename forEachError events))
        \<longleftrightarrow> inProgress (run regexTest basename forEachError events) \<noteq> []"
    using inv by (simp add: reloaderInv_def)
  have c: "isReloading (service r) \<longrightarrow> callPerformHotReload basename force r = r"
    by (simp add: callPerformHotReload_def performHotReload_start_def)
  have d: "isReloading s \<longrightarrow> performHotReload_start basename force s = None
                         \<and> performHotReload send basename forEachError force elapsed s = s"
    by (simp add: performHotReload_def performHotReload_start_def)
  have e: "\<not> isReloading (performHotReload_finish forEachError outcome elapsed s)"
    by (simp add: performHotReload_finish_guard)
  have f: "\<not> isReloading s0 \<longrightarrow> \<not> isReloading (performHotReload send basename forEachError force elapsed s0)"
    by (simp add: performHotReload_def performHotReload_start_def Let_def
          performHotReload_finish_guard)
  have g: "performHotReload_start basename force' (performHotReload_finish forEachError outcome elapsed s) \<noteq> None"
    by (simp add: performHotReload_start_None performHotReload_finish_guard)
  from a b c d e f g show ?thesis by blast
qed

lemma busy_run:
  "run (\<lambda>p s. Some False) (\<lambda>p e. p) (\<lambda>w. None)
         [FileChanged True ''A.swift'' OnChange 0, FileRead 0 (Some ''let a = 1'') 2,
          DebounceFired 1002] =
   \<lparr>service = initialService\<lparr>changeQueue := [(''A.swift'', \<lparr>timestamp = 2, content = ''let a = 1''\<rparr>)],
        isReloading := True\<rparr>,
    inProgress = [(\<lparr>type = Logic, files = [''A.swift''], affectedComponents = [],
         requiresFullRebuild = False, estimatedRebuildTime = 500\<rparr>, Incremental)],
    reading = []\<rparr>"
  by (simp add: service_defs analysis_defs)

theorem single_cycle_in_progress_witness:
  "isReloading (service (run (\<lambda>p s. Some False) (\<lambda>p e. p) (\<lambda>w. None)
         [FileChanged True ''A.swift'' OnChange 0, FileRead 0 (Some ''let a = 1'') 2,
          DebounceFired 1002]))
   \<and> callPerformHotReload (\<lambda>p e. p) True
        (run (\<lambda>p s. Some False) (\<lambda>p e. p) (\<lambda>w. None)
           [FileChanged True ''A.swift'' OnChange 0, FileRead 0 (Some ''let a = 1'') 2,
            DebounceFired 1002])
      = run (\<lambda>p s. Some False) (\<lambda>p e. p) (\<lambda>w. None)
           [FileChanged True ''A.swift'' OnChange 0, FileRead 0 (Some ''let a = 1'') 2,
            DebounceFired 1002]
   \<and> performHotReload_start (\<lambda>p e. p) True
        (service (run (\<lambda>p s. Some False) (\<lambda>p e. p) (\<lambda>w. None)
           [FileChanged True ''A.swift'' OnChange 0, FileRead 0 (Some ''let a = 1'') 2,
            DebounceFired 1002]))
      = None
   \<and> \<not> isReloading initialService
   \<and> \<not> isReloading
         (performHotReload (\<lambda>m. Inl ''Request timeout'') (\<lambda>p e. p) (\<lambda>w. None) True 7 initialService)"
  using single_cycle_in_progress [where regexTest = "\<lambda>p s. Some False" and basename = "\<lambda>p e. p"
      and forEachError = "\<lambda>w. None"
      and events = "[FileChanged True ''A.swift'' OnChange 0, FileRead 0 (Some ''let a = 1'') 2,
                     DebounceFired 1002]"
      and r = "run (\<lambda>p s. Some False) (\<lambda>p e. p) (\<lambda>w. None)
           [FileChanged True ''A.swift'' OnChange 0, FileRead 0 (Some ''let a = 1'') 2,
            DebounceFired 1002]"
      and s = "service (run (\<lambda>p s. Some False) (\<lambda>p e. p) (\<lambda>w. None)
           [FileChanged True ''A.swift'' OnChange 0, FileRead 0 (Some ''let a = 1'') 2,
            DebounceFired 1002])"
      and force = True and s0 = initialService
      and send = "\<lambda>m. Inl ''Request timeout''" and elapsed = 7]
  by (simp add: busy_run initialService_def)

subsection \<open>The classification of a batch\<close>

lemma analyzeFile_requires_mono:
  "av_requiresFullRebuild v \<Longrightarrow> av_requiresFullRebuild (analyzeFile basename v e)"
  by (simp add: analyzeFile_def Let_def)

lemma foldl_analyzeFile_requires_mono:
  "av_requiresFullRebuild v \<Longrightarrow> av_requiresFullRebuild (foldl (analyzeFile basename) v q)"
  by (induction q arbitrary: v) (simp_all add: analyzeFile_requires_mono)

lemma analyzeFile_dependency:
  "isDependencyChange (fst e) (snd e) \<Longrightarrow>
     av_requiresFullRebuild (analyzeFile basename v e)
     \<and> av_changeType (analyzeFile basename v e) = Dependency"
  by (simp add: analyzeFile_def Let_def)

lemma foldl_analyzeFile_dependency:
  "e \<in> set q \<Longrightarrow> isDependencyChange (fst e) (snd e) \<Longrightarrow>
     av_requiresFullRebuild (foldl (analyzeFile basename) v q)"
proof (induction q arbitrary: v)
  case Nil
  then show ?case by simp
next
  case (Cons a q)
  show ?case
  proof (cases "e = a")
    case True
    with Cons.prems show ?thesis
      by (simp add: foldl_analyzeFile_requires_mono analyzeFile_dependency)
  next
    case False
    with Cons show ?thesis by simp
  qed
qed

text \<open>
  A manifest file anywhere in the batch forces the full rebuild, and the tag is
  \<open>Dependency\<close> when the manifest file is the last one of the batch.
\<close>

lemma analyzeChanges_dependency_forces:
  "e \<in> set q \<Longrightarrow> isDependencyChange (fst e) (snd e) \<Longrightarrow>
     requiresFullRebuild (analyzeChanges basename q)"
  by (simp add: analyzeChanges_def Let_def foldl_analyzeFile_dependency)

lemma analyzeChanges_last_dependency:
  "isDependencyChange (fst e) (snd e) \<Longrightarrow>
     type (analyzeChanges basename (q @ [e])) = Dependency"
  by (simp add: analyzeChanges_def Let_def analyzeFile_dependency)

lemma analyzeChanges_view_then_manifest:
  "analyzeChanges basename
     [(''LoginView.swift'', \<lparr>timestamp = 1, content = ''extension LoginView { }''\<rparr>),
      (''Package.swift'', \<lparr>timestamp = 2, content = ''// swift-tools-version:5.5''\<rparr>)]
   = \<lparr>type = Dependency, files = [''LoginView.swift'', ''Package.swift''],
      affectedComponents = [basename ''LoginView.swift'' ''.swift''],
      requiresFullRebuild = True, estimatedRebuildTime = 30000\<rparr>"
  by (simp add: analysis_defs)

text \<open>
  Claim C2. The batch is classified as the most severe classification seen in it, so a
  batch of one manifest file and one interface-only file is tagged \<open>Dependency\<close> in
  either order. The code does this only within one file: each file of the batch assigns
  \<open>changeType\<close> anew, so the tag is that of the last file that raised a signal. With the
  manifest file recorded first and the view file second the tag is \<open>UiOnly\<close> and the
  estimate 400 ms, while \<open>requiresFullRebuild\<close>, which is only ever set, stays true.
\<close>

theorem analyzeChanges_manifest_then_view:
  "analyzeChanges basename
     [(''Package.swift'', \<lparr>timestamp = 1, content = ''// swift-tools-version:5.5''\<rparr>),
      (''LoginView.swift'', \<lparr>timestamp = 2, content = ''extension LoginView { }''\<rparr>)]
   = \<lparr>type = UiOnly, files = [''Package.swift'', ''LoginView.swift''],
      affectedComponents = [basename ''LoginView.swift'' ''.swift''],
      requiresFullRebuild = True, estimatedRebuildTime = 400\<rparr>"
  by (simp add: analysis_defs)

subsection \<open>The change queue\<close>



text \<open>
  A call of \<open>handleFileChange\<close> that fails a guard, and a waiting call whose file could
  not be saved or read, leave the service as it is.
\<close>

lemma handleFileChange_dropped:
  "\<not> enabled (config s) \<or> \<not> conn \<or> shouldExcludeFile rt (config s) p \<noteq> Some False \<Longrightarrow>
     handleFileChange_start rt conn p e now s = Returned"
  "handleFileChange_resume p None now s = s"
  by (auto simp: handleFileChange_start_def handleFileChange_resume_def split: option.splits)

lemma handleFileChange_waits:
  "enabled (config s) \<Longrightarrow> shouldExcludeFile rt (config s) p = Some False \<Longrightarrow> e \<noteq> OnDelete \<Longrightarrow>
     handleFileChange_start rt True p e now s = Suspended"
  by (simp add: handleFileChange_start_def)






subsection \<open>A change of the project manifest\<close>

lemma setTimeoutDelay_in_range:
  "1 \<le> n \<Longrightarrow> n \<le> 2147483647 \<Longrightarrow> setTimeoutDelay (Finite n) = n"
  by (simp add: setTimeoutDelay_def)

lemma setTimeoutDelay_out_of_range:
  "n < 1 \<or> 2147483647 < n \<Longrightarrow> setTimeoutDelay (Finite n) = 1"
  "setTimeoutDelay NaN = 1"
  by (auto simp: setTimeoutDelay_def)

lemma setTimeoutDelay_positive: "1 \<le> setTimeoutDelay delay"
  by (simp add: setTimeoutDelay_def split: jsnumber.splits)

text \<open>
  Claim C8, as amended. \<open>handleConfigChange\<close> clears the build cache at once and calls
  \<open>triggerHotReload(true)\<close>, which arms the debounce timer like any other trigger: no
  cycle starts and the guard and the history stay as they are. The timer waits
  \<open>debounceDelay\<close> milliseconds, or 1 millisecond when \<open>debounceDelay\<close> is not a number
  from 1 to 2147483647. A firing before that time has passed does nothing; the firing
  after it starts a cycle with the full strategy, unless one is in progress.
\<close>

theorem config_change_is_debounced:
  "buildCache (service (step regexTest basename forEachError r (ConfigChanged now))) = []
   \<and> inProgress (step regexTest basename forEachError r (ConfigChanged now)) = inProgress r
   \<and> isReloading (service (step regexTest basename forEachError r (ConfigChanged now)))
       = isReloading (service r)
   \<and> reloadHistory (service (step regexTest basename forEachError r (ConfigChanged now)))
       = reloadHistory (service r)
   \<and> debounceTimer (service (step regexTest basename forEachError r (ConfigChanged now)))
       = Some \<lparr>dt_forceFullRebuild = True,
               dt_due = now + setTimeoutDelay (debounceDelay (config (service r)))\<rparr>
   \<and> (later < now + setTimeoutDelay (debounceDelay (config (service r))) \<longrightarrow>
        step regexTest basename forEachError (step regexTest basename forEachError r (ConfigChanged now))
          (DebounceFired later)
        = step regexTest basename forEachError r (ConfigChanged now))
   \<and> (now + setTimeoutDelay (debounceDelay (config (service r))) \<le> later
        \<and> \<not> isReloading (service r) \<longrightarrow>
        isReloading (service (step regexTest basename forEachError
              (step regexTest basename forEachError r (ConfigChanged now)) (DebounceFired later)))
        \<and> map snd (inProgress (step regexTest basename forEachError
              (step regexTest basename forEachError r (ConfigChanged now)) (DebounceFired later)))
           = map snd (inProgress r) @ [Full])"
  by (simp add: handleConfigChange_def triggerHotReload_def callPerformHotReload_def
        performHotReload_start_def Let_def)

theorem config_change_is_debounced_witness:
  "step (\<lambda>p s. Some False) (\<lambda>p e. p) (\<lambda>w. None)
      (step (\<lambda>p s. Some False) (\<lambda>p e. p) (\<lambda>w. None) initialReloader (ConfigChanged 0)) (DebounceFired 999)
   = step (\<lambda>p s. Some False) (\<lambda>p e. p) (\<lambda>w. None) initialReloader (ConfigChanged 0)
   \<and> map snd (inProgress (step (\<lambda>p s. Some False) (\<lambda>p e. p) (\<lambda>w. None)
      (step (\<lambda>p s. Some False) (\<lambda>p e. p) (\<lambda>w. None) initialReloader (ConfigChanged 0)) (DebounceFired 1000)))
      = [Full]"
proof -
  have a: "(999::int) < 0 + setTimeoutDelay (debounceDelay (config (service initialReloader)))"
    by (simp add: service_defs)
  have b: "0 + setTimeoutDelay (debounceDelay (config (service initialReloader))) \<le> (1000::int)
           \<and> \<not> isReloading (service initialReloader)"
    by (simp add: service_defs)
  have c: "inProgress initialReloader = []" by (simp add: service_defs)
  from a config_change_is_debounced [where regexTest = "\<lambda>p s. Some False" and basename = "\<lambda>p e. p"
      and forEachError = "\<lambda>w. None"
      and r = initialReloader and now = 0 and later = 999]
  have 1: "step (\<lambda>p s. Some False) (\<lambda>p e. p) (\<lambda>w. None)
      (step (\<lambda>p s. Some False) (\<lambda>p e. p) (\<lambda>w. None) initialReloader (ConfigChanged 0)) (DebounceFired 999)
   = step (\<lambda>p s. Some False) (\<lambda>p e. p) (\<lambda>w. None) initialReloader (ConfigChanged 0)" by blast
  from b config_change_is_debounced [where regexTest = "\<lambda>p s. Some False" and basename = "\<lambda>p e. p"
      and forEachError = "\<lambda>w. None"
      and r = initialReloader and now = 0 and later = 1000]
  have "map snd (inProgress (step (\<lambda>p s. Some False) (\<lambda>p e. p) (\<lambda>w. None)
      (step (\<lambda>p s. Some False) (\<lambda>p e. p) (\<lambda>w. None) initialReloader (ConfigChanged 0)) (DebounceFired 1000)))
      = map snd (inProgress initialReloader) @ [Full]" by blast
  with c have 2: "map snd (inProgress (step (\<lambda>p s. Some False) (\<lambda>p e. p) (\<lambda>w. None)
      (step (\<lambda>p s. Some False) (\<lambda>p e. p) (\<lambda>w. None) initialReloader (ConfigChanged 0)) (DebounceFired 1000)))
      = [Full]" by simp
  from 1 2 show ?thesis by blast
qed

text \<open>
  With a delay the runtime does not take, here 2147483648, the timer of the manifest
  change is due after 1 millisecond.
\<close>

lemma config_change_delay_out_of_range:
  "debounceTimer (handleConfigChange 0
     (initialService\<lparr>config := defaultConfig\<lparr>debounceDelay := Finite 2147483648\<rparr>\<rparr>))
   = Some \<lparr>dt_forceFullRebuild = True, dt_due = 1\<rparr>"
  by (simp add: handleConfigChange_def triggerHotReload_def setTimeoutDelay_def
        initialService_def)

text \<open>
  The claim as stated fails: right after the manifest change no cycle has started, the
  forced cycle waits for the debounce timer (1000 ms by default), and 999 ms later there
  is still none.
\<close>

theorem config_change_waits_counterexample:
  "inProgress (step (\<lambda>p s. Some False) (\<lambda>p e. p) (\<lambda>w. None) initialReloader (ConfigChanged 0)) = []
   \<and> \<not> isReloading (service (step (\<lambda>p s. Some False) (\<lambda>p e. p) (\<lambda>w. None) initialReloader (ConfigChanged 0)))
   \<and> reloadHistory (service (step (\<lambda>p s. Some False) (\<lambda>p e. p) (\<lambda>w. None) initialReloader (ConfigChanged 0))) = []
   \<and> debounceTimer (service (step (\<lambda>p s. Some False) (\<lambda>p e. p) (\<lambda>w. None) initialReloader (ConfigChanged 0)))
      = Some \<lparr>dt_forceFullRebuild = True, dt_due = 1000\<rparr>
   \<and> inProgress (step (\<lambda>p s. Some False) (\<lambda>p e. p) (\<lambda>w. None)
        (step (\<lambda>p s. Some False) (\<lambda>p e. p) (\<lambda>w. None) initialReloader (ConfigChanged 0)) (DebounceFired 999)) = []"
  by (simp add: service_defs)

subsection \<open>The end of a cycle\<close>

text \<open>A sample of the fingerprint: it is the hash Java gives the same string.\<close>

lemma hash_abc: "hashContent ''abc'' = ''96354''"
  apply (simp add: hashContent_def hashStep_def intToString_def)
  apply (simp add: natToString.simps)
  done



lemma cacheFile_frame:
  "changeQueue (cacheFile s e) = changeQueue s"
  "reloadHistory (cacheFile s e) = reloadHistory s"
  "isReloading (cacheFile s e) = isReloading s"
  "config (cacheFile s e) = config s"
  by (simp_all add: cacheFile_def Let_def)

lemma foldl_cacheFile_frame:
  "reloadHistory (foldl cacheFile s q) = reloadHistory s"
  by (induction q arbitrary: s) (simp_all add: cacheFile_frame)

lemma map_of_cacheFile:
  "map_of (buildCache (cacheFile s e)) p =
     (if p = fst e then Some \<lparr>cache_content = content (snd e),
            cache_timestamp = timestamp (snd e),
            cache_hash = hashContent (content (snd e))\<rparr>
      else map_of (buildCache s) p)"
  by (simp add: cacheFile_def Let_def update_conv')

lemma foldl_cacheFile_other:
  "p \<notin> fst ` set q \<Longrightarrow>
     map_of (buildCache (foldl cacheFile s q)) p = map_of (buildCache s) p"
  by (induction q arbitrary: s) (simp_all add: map_of_cacheFile)

lemma foldl_cacheFile_entry:
  "distinct (map fst q) \<Longrightarrow> map_of q p = Some change \<Longrightarrow>
     map_of (buildCache (foldl cacheFile s q)) p =
       Some \<lparr>cache_content = content change, cache_timestamp = timestamp change,
             cache_hash = hashContent (content change)\<rparr>"
proof (induction q arbitrary: s)
  case Nil
  then show ?case by simp
next
  case (Cons e q)
  show ?case
  proof (cases "p = fst e")
    case True
    with Cons.prems have "p \<notin> fst ` set q" "change = snd e" by auto
    with True show ?thesis
      by (simp add: foldl_cacheFile_other map_of_cacheFile)
  next
    case False
    with Cons show ?thesis by simp
  qed
qed

lemma pushHistory_last: "last (pushHistory result history) = result"
  by (cases history) (simp_all add: pushHistory_def Let_def)

lemma pushHistory_bound:
  "length history \<le> 50 \<Longrightarrow> length (pushHistory result history) \<le> 50"
  by (simp add: pushHistory_def Let_def)

text \<open>
  Claim C9, as amended. A cycle whose strategy returned a result stores every path of
  the queue in the build cache (content, timestamp, fingerprint) and empties the queue.
  A cycle whose strategy threw leaves the build cache, \<open>lastSuccessfulBuild\<close> and the
  queue as they were. Both append one result to the history as its last entry: the
  result of the strategy, or the failure built from the error of the strategy (or of
  \<open>showReloadResult\<close>); a history of at most 50 entries stays so.
\<close>

theorem cycle_completion:
  "(distinct (map fst (changeQueue s)) \<and> map_of (changeQueue s) path = Some change \<longrightarrow>
      map_of (buildCache (performHotReload_finish forEachError (Inr result) elapsed s)) path =
        Some \<lparr>cache_content = content change, cache_timestamp = timestamp change,
              cache_hash = hashContent (content change)\<rparr>)
   \<and> changeQueue (performHotReload_finish forEachError (Inr result) elapsed s) = []
   \<and> buildCache (performHotReload_finish forEachError (Inl e) elapsed s) = buildCache s
   \<and> lastSuccessfulBuild (performHotReload_finish forEachError (Inl e) elapsed s)
       = lastSuccessfulBuild s
   \<and> changeQueue (performHotReload_finish forEachError (Inl e) elapsed s) = changeQueue s
   \<and> reloadHistory (performHotReload_finish forEachError outcome elapsed s)
       = pushHistory
           (case outcome of
              Inr r \<Rightarrow> (case showReloadResult forEachError r of
                         None \<Rightarrow> r
                       | Some m \<Rightarrow> failureResult elapsed m)
            | Inl m \<Rightarrow> failureResult elapsed m)
           (reloadHistory s)
   \<and> last (reloadHistory (performHotReload_finish forEachError outcome elapsed s))
       = (case outcome of
            Inr r \<Rightarrow> (case showReloadResult forEachError r of
                       None \<Rightarrow> r
                     | Some m \<Rightarrow> failureResult elapsed m)
          | Inl m \<Rightarrow> failureResult elapsed m)
   \<and> (length (reloadHistory s) \<le> 50 \<longrightarrow>
        length (reloadHistory (performHotReload_finish forEachError outcome elapsed s)) \<le> 50)"
proof -
  have a: "distinct (map fst (changeQueue s)) \<and> map_of (changeQueue s) path = Some change \<longrightarrow>
      map_of (buildCache (performHotReload_finish forEachError (Inr result) elapsed s)) path =
        Some \<lparr>cache_content = content change, cache_timestamp = timestamp change,
              cache_hash = hashContent (content change)\<rparr>"
    by (simp add: performHotReload_finish_def updateBuildCache_def foldl_cacheFile_entry
          Let_def split: option.splits)
  have b: "changeQueue (performHotReload_finish forEachError (Inr result) elapsed s) = []"
    by (simp add: performHotReload_finish_queue)
  have c: "buildCache (performHotReload_finish forEachError (Inl e) elapsed s) = buildCache s"
    "lastSuccessfulBuild (performHotReload_finish forEachError (Inl e) elapsed s)
       = lastSuccessfulBuild s"
    "changeQueue (performHotReload_finish forEachError (Inl e) elapsed s) = changeQueue s"
    by (simp_all add: performHotReload_finish_def)
  have d: "reloadHistory (performHotReload_finish forEachError outcome elapsed s)
       = pushHistory
           (case outcome of
              Inr r \<Rightarrow> (case showReloadResult forEachError r of
                         None \<Rightarrow> r
                       | Some m \<Rightarrow> failureResult elapsed m)
            | Inl m \<Rightarrow> failureResult elapsed m)
           (reloadHistory s)"
    by (simp add: performHotReload_finish_def updateBuildCache_def foldl_cacheFile_frame
          Let_def split: sum.splits option.splits)
  have e: "last (reloadHistory (performHotReload_finish forEachError outcome elapsed s))
       = (case outcome of
            Inr r \<Rightarrow> (case showReloadResult forEachError r of
                       None \<Rightarrow> r
                     | Some m \<Rightarrow> failureResult elapsed m)
          | Inl m \<Rightarrow> failureResult elapsed m)"
    unfolding d by (rule pushHistory_last)
  have f: "length (reloadHistory s) \<le> 50 \<longrightarrow>
        length (reloadHistory (performHotReload_finish forEachError outcome elapsed s)) \<le> 50"
    unfolding d by (simp add: pushHistory_bound)
  from a b c d e f show ?thesis by blast
qed

theorem cycle_completion_witness:
  "map_of (buildCache (performHotReload_finish (\<lambda>w. None)
       (Inr \<lparr>success = True, duration = 12, changeType = ''Incremental'', errors = None,
              warnings = JUndefined\<rparr>) 12
       (initialService\<lparr>changeQueue :=
           [(''A.swift'', \<lparr>timestamp = 3, content = ''let a = 1''\<rparr>)]\<rparr>))) ''A.swift''
   = Some \<lparr>cache_content = ''let a = 1'', cache_timestamp = 3,
           cache_hash = hashContent ''let a = 1''\<rparr>
   \<and> length (reloadHistory (performHotReload_finish (\<lambda>w. None) (Inl ''Full reload failed: Request timeout'') 12
       (initialService\<lparr>changeQueue :=
           [(''A.swift'', \<lparr>timestamp = 3, content = ''let a = 1''\<rparr>)]\<rparr>))) \<le> 50"
proof -
  let ?s = "initialService\<lparr>changeQueue :=
           [(''A.swift'', \<lparr>timestamp = 3, content = ''let a = 1''\<rparr>)]\<rparr>"
  have h1: "distinct (map fst (changeQueue ?s))
            \<and> map_of (changeQueue ?s) ''A.swift'' = Some \<lparr>timestamp = 3, content = ''let a = 1''\<rparr>"
    by simp
  have h2: "length (reloadHistory ?s) \<le> 50" by (simp add: initialService_def)
  from h1 cycle_completion [where s = ?s and path = "''A.swift''"
      and change = "\<lparr>timestamp = 3, content = ''let a = 1''\<rparr>"
      and result = "\<lparr>success = True, duration = 12, changeType = ''Incremental'',
                     errors = None, warnings = JUndefined\<rparr>" and elapsed = 12]
  have 1: "map_of (buildCache (performHotReload_finish (\<lambda>w. None)
       (Inr \<lparr>success = True, duration = 12, changeType = ''Incremental'', errors = None,
              warnings = JUndefined\<rparr>) 12 ?s)) ''A.swift''
   = Some \<lparr>cache_content = ''let a = 1'', cache_timestamp = 3,
           cache_hash = hashContent ''let a = 1''\<rparr>" by simp
  from h2 cycle_completion [where s = ?s and elapsed = 12
      and outcome = "Inl ''Full reload failed: Request timeout''"]
  have 2: "length (reloadHistory (performHotReload_finish (\<lambda>w. None)
              (Inl ''Full reload failed: Request timeout'') 12 ?s)) \<le> 50" by blast
  from 1 2 show ?thesis by blast
qed

text \<open>
  The claim as stated fails: a cycle whose request times out leaves the build cache
  empty although the batch held a file; its failure is in the history.
\<close>

theorem failed_cycle_keeps_cache_counterexample:
  "buildCache
     (performHotReload (\<lambda>m. Inl ''Request timeout'') (\<lambda>p e. p) (\<lambda>w. None) False 30000
        (initialService\<lparr>changeQueue :=
           [(''A.swift'', \<lparr>timestamp = 3, content = ''let a = 1''\<rparr>)]\<rparr>)) = []
   \<and> reloadHistory
     (performHotReload (\<lambda>m. Inl ''Request timeout'') (\<lambda>p e. p) (\<lambda>w. None) False 30000
        (initialService\<lparr>changeQueue :=
           [(''A.swift'', \<lparr>timestamp = 3, content = ''let a = 1''\<rparr>)]\<rparr>))
     = [\<lparr>success = False, duration = 30000, changeType = ''error'',
         errors = Some [''Incremental reload failed: Request timeout''],
         warnings = JUndefined\<rparr>]"
  by (simp add: performHotReload_def performHotReload_finish_def pushHistory_def
        failureResult_def runStrategy_def performIncrementalReload_def service_defs
        analysis_defs)


subsection \<open>The configuration\<close>

text \<open>
  Claim C10. \<open>updateConfiguration\<close> takes every field the partial object has from it
  and keeps every other field of the configuration; of the service nothing but the
  configuration (and the saved settings) changes.
\<close>

theorem updateConfiguration_merges:
  "enabled (config (updateConfiguration newConfig s))
     = (case new_enabled newConfig of None \<Rightarrow> enabled (config s) | Some v \<Rightarrow> v)
   \<and> debounceDelay (config (updateConfiguration newConfig s))
     = (case new_debounceDelay newConfig of None \<Rightarrow> debounceDelay (config s) | Some v \<Rightarrow> v)
   \<and> incrementalCompilation (config (updateConfiguration newConfig s))
     = (case new_incrementalCompilation newConfig of
          None \<Rightarrow> incrementalCompilation (config s) | Some v \<Rightarrow> v)
   \<and> swiftUIPreviewMode (config (updateConfiguration newConfig s))
     = (case new_swiftUIPreviewMode newConfig of
          None \<Rightarrow> swiftUIPreviewMode (config s) | Some v \<Rightarrow> v)
   \<and> autoSave (config (updateConfiguration newConfig s))
     = (case new_autoSave newConfig of None \<Rightarrow> autoSave (config s) | Some v \<Rightarrow> v)
   \<and> excludePatterns (config (updateConfiguration newConfig s))
     = (case new_excludePatterns newConfig of
          None \<Rightarrow> excludePatterns (config s) | Some v \<Rightarrow> v)
   \<and> updateConfiguration newConfig s
     = s\<lparr>config := config (updateConfiguration newConfig s),
         settings := settings (updateConfiguration newConfig s)\<rparr>"
  by (simp add: updateConfiguration_def mergeConfig_def)

section \<open>Properties of the request bookkeeping\<close>

subsection \<open>Sending while the socket is not open\<close>

text \<open>
  Claim C5. A request sent while the socket is missing or not open is rejected at once
  with \<open>NotConnected\<close>: the promise handed back is rejected by that very call, and the
  pending requests, the timers and the outgoing messages are exactly as before.
\<close>

theorem send_while_not_connected:
  "websocket s \<noteq> Some OPEN \<longrightarrow>
     sendMessage message token now sendError s
       = (nextPromise s,
          s\<lparr>nextPromise := Suc (nextPromise s),
            promises := promises s @ [(nextPromise s, Rejected NotConnected)]\<rparr>)
     \<and> pendingRequests (snd (sendMessage message token now sendError s)) = pendingRequests s
     \<and> timers (snd (sendMessage message token now sendError s)) = timers s
     \<and> outbox (snd (sendMessage message token now sendError s)) = outbox s"
  by (simp add: sendMessage_def settle_def Let_def)

theorem send_while_not_connected_witness:
  "websocket (connRun [SocketChanged (Some OPEN),
        Send \<lparr>msg_type = ''build_project'', msg_data = JObject [], msg_id = None\<rparr> ''k3x9'' 0 None,
        SocketChanged (Some CLOSED)]) \<noteq> Some OPEN
   \<and> pendingRequests (snd (sendMessage
          \<lparr>msg_type = ''run_project'', msg_data = JObject [], msg_id = None\<rparr> ''q7'' 10 None
          (connRun [SocketChanged (Some OPEN),
        Send \<lparr>msg_type = ''build_project'', msg_data = JObject [], msg_id = None\<rparr> ''k3x9'' 0 None,
        SocketChanged (Some CLOSED)])))
     = [(''k3x9'', \<lparr>pr_promise = 0, pr_timeout = 0\<rparr>)]
   \<and> promises (snd (sendMessage
          \<lparr>msg_type = ''run_project'', msg_data = JObject [], msg_id = None\<rparr> ''q7'' 10 None
          (connRun [SocketChanged (Some OPEN),
        Send \<lparr>msg_type = ''build_project'', msg_data = JObject [], msg_id = None\<rparr> ''k3x9'' 0 None,
        SocketChanged (Some CLOSED)])))
     = [(1, Rejected NotConnected)]"
  using send_while_not_connected [where s = "connRun [SocketChanged (Some OPEN),
        Send \<lparr>msg_type = ''build_project'', msg_data = JObject [], msg_id = None\<rparr> ''k3x9'' 0 None,
        SocketChanged (Some CLOSED)]"
      and message = "\<lparr>msg_type = ''run_project'', msg_data = JObject [], msg_id = None\<rparr>"
      and token = "''q7''" and now = 10 and sendError = None]
  by (simp add: connRun_def initialConnection_def sendMessage_def settle_def Let_def)

subsection \<open>Loss of the connection\<close>

lemma rejectClosed_frame:
  "pendingRequests (rejectClosed s request) = pendingRequests s"
  "connected (rejectClosed s request) = connected s"
  "websocket (rejectClosed s request) = websocket s"
  "nextPromise (rejectClosed s request) = nextPromise s"
  "nextTimer (rejectClosed s request) = nextTimer s"
  "outbox (rejectClosed s request) = outbox s"
  by (simp_all add: rejectClosed_def settle_def clearTimeout_def)

lemma foldl_rejectClosed_promises:
  "promises (foldl rejectClosed s requests) =
     promises s @ map (\<lambda>request. (pr_promise request, Rejected ConnectionClosed)) requests"
  by (induction requests arbitrary: s) (simp_all add: rejectClosed_def settle_def clearTimeout_def)

lemma foldl_rejectClosed_timers:
  "timers (foldl rejectClosed s requests) =
     filter (\<lambda>e. fst e \<notin> pr_timeout ` set requests) (timers s)"
proof (induction requests arbitrary: s)
  case Nil
  then show ?case by simp
next
  case (Cons a requests)
  have "timers (rejectClosed s a) = filter (\<lambda>e. fst e \<noteq> pr_timeout a) (timers s)"
    by (simp add: rejectClosed_def settle_def clearTimeout_def AList.delete_eq case_prod_unfold
          eq_commute [of "pr_timeout a"])
  with Cons show ?case by (simp add: conj_commute)
qed

lemma foldl_rejectClosed_frame:
  "nextPromise (foldl rejectClosed s requests) = nextPromise s"
  "nextTimer (foldl rejectClosed s requests) = nextTimer s"
  "websocket (foldl rejectClosed s requests) = websocket s"
  "connected (foldl rejectClosed s requests) = connected s"
  by (induction requests arbitrary: s) (simp_all add: rejectClosed_frame)

text \<open>
  Claim C7. \<open>handleDisconnection\<close> rejects every pending request, however many there
  are, with \<open>ConnectionClosed\<close>, in the order of the map, disarms their timers and
  leaves the map of pending requests empty.
\<close>

theorem disconnection_fails_all_pending:
  "pendingRequests (handleDisconnection s) = []
   \<and> promises (handleDisconnection s) =
       promises s @ map (\<lambda>e. (pr_promise (snd e), Rejected ConnectionClosed)) (pendingRequests s)
   \<and> timers (handleDisconnection s) =
       filter (\<lambda>e. fst e \<notin> (pr_timeout \<circ> snd) ` set (pendingRequests s)) (timers s)
   \<and> \<not> connected (handleDisconnection s)"
  by (simp add: handleDisconnection_def Let_def foldl_rejectClosed_promises
        foldl_rejectClosed_timers foldl_rejectClosed_frame comp_def image_image)

subsection \<open>The bookkeeping stays well formed\<close>

lemma wellFormedI:
  assumes "distinct (map fst (pendingRequests s))"
    and "distinct (map fst (timers s))"
    and "distinct (map fst (promises s))"
    and "\<And>p. p \<in> fst ` set (promises s) \<Longrightarrow> p < nextPromise s"
    and "\<And>t tm. map_of (timers s) t = Some tm \<Longrightarrow>
            t < nextTimer s \<and> tm_promise tm < nextPromise s
            \<and> tm_promise tm \<notin> fst ` set (promises s)"
    and "\<And>t t' tm tm'. map_of (timers s) t = Some tm \<Longrightarrow> map_of (timers s) t' = Some tm'
            \<Longrightarrow> tm_promise tm = tm_promise tm' \<Longrightarrow> t = t'"
    and "\<And>i request. map_of (pendingRequests s) i = Some request \<Longrightarrow>
            \<exists>tm. map_of (timers s) (pr_timeout request) = Some tm
                  \<and> tm_messageId tm = i \<and> tm_promise tm = pr_promise request"
  shows "wellFormed s"
  unfolding wellFormed_def using assms by blast

lemma wellFormedD:
  assumes "wellFormed s"
  shows "distinct (map fst (pendingRequests s))"
    and "distinct (map fst (timers s))"
    and "distinct (map fst (promises s))"
    and "\<And>p. p \<in> fst ` set (promises s) \<Longrightarrow> p < nextPromise s"
    and "\<And>t tm. map_of (timers s) t = Some tm \<Longrightarrow> t < nextTimer s"
    and "\<And>t tm. map_of (timers s) t = Some tm \<Longrightarrow> tm_promise tm < nextPromise s"
    and "\<And>t tm. map_of (timers s) t = Some tm \<Longrightarrow> tm_promise tm \<notin> fst ` set (promises s)"
    and "\<And>t t' tm tm'. map_of (timers s) t = Some tm \<Longrightarrow> map_of (timers s) t' = Some tm'
            \<Longrightarrow> tm_promise tm = tm_promise tm' \<Longrightarrow> t = t'"
    and "\<And>i request. map_of (pendingRequests s) i = Some request \<Longrightarrow>
            \<exists>tm. map_of (timers s) (pr_timeout request) = Some tm
                  \<and> tm_messageId tm = i \<and> tm_promise tm = pr_promise request"
  using assms unfolding wellFormed_def by blast+

text \<open>Settling a promise that no armed timer holds.\<close>

lemma wellFormed_settle:
  assumes wf: "wellFormed s"
    and new: "p < nextPromise s" "p \<notin> fst ` set (promises s)"
    and free: "\<And>t tm. map_of (timers s) t = Some tm \<Longrightarrow> tm_promise tm \<noteq> p"
  shows "wellFormed (settle p outcome s)"
proof (rule wellFormedI)
  show "distinct (map fst (promises (settle p outcome s)))"
    using wellFormedD(3) [OF wf] new by (simp add: settle_def)
  show "\<And>q. q \<in> fst ` set (promises (settle p outcome s)) \<Longrightarrow> q < nextPromise (settle p outcome s)"
    using wellFormedD(4) [OF wf] new by (auto simp: settle_def)
  show "\<And>t tm. map_of (timers (settle p outcome s)) t = Some tm \<Longrightarrow>
            t < nextTimer (settle p outcome s) \<and> tm_promise tm < nextPromise (settle p outcome s)
            \<and> tm_promise tm \<notin> fst ` set (promises (settle p outcome s))"
    using wellFormedD(5,6,7) [OF wf] free by (auto simp: settle_def)
qed (use wellFormedD [OF wf] in \<open>auto simp: settle_def\<close>)

text \<open>
  Disarming a timer and deleting an id, when no other pending request hangs on that timer.
\<close>

lemma wellFormed_drop:
  assumes wf: "wellFormed s"
    and other: "\<And>i request. i \<noteq> x \<Longrightarrow> map_of (pendingRequests s) i = Some request
                  \<Longrightarrow> pr_timeout request \<noteq> t"
  shows "wellFormed ((clearTimeout t s)\<lparr>pendingRequests := AList.delete x (pendingRequests s)\<rparr>)"
proof (rule wellFormedI)
  let ?s = "(clearTimeout t s)\<lparr>pendingRequests := AList.delete x (pendingRequests s)\<rparr>"
  show "distinct (map fst (pendingRequests ?s))"
    using wellFormedD(1) [OF wf] by (simp add: distinct_delete)
  show "distinct (map fst (timers ?s))"
    using wellFormedD(2) [OF wf] by (simp add: clearTimeout_def distinct_delete)
  show "distinct (map fst (promises ?s))"
    using wellFormedD(3) [OF wf] by (simp add: clearTimeout_def)
  show "\<And>p. p \<in> fst ` set (promises ?s) \<Longrightarrow> p < nextPromise ?s"
    using wellFormedD(4) [OF wf] by (simp add: clearTimeout_def)
  show "\<And>u tm. map_of (timers ?s) u = Some tm \<Longrightarrow>
            u < nextTimer ?s \<and> tm_promise tm < nextPromise ?s
            \<and> tm_promise tm \<notin> fst ` set (promises ?s)"
    using wellFormedD(5,6,7) [OF wf]
    by (auto simp: clearTimeout_def delete_conv' split: if_splits)
  show "\<And>u u' tm tm'. map_of (timers ?s) u = Some tm \<Longrightarrow> map_of (timers ?s) u' = Some tm'
            \<Longrightarrow> tm_promise tm = tm_promise tm' \<Longrightarrow> u = u'"
    using wellFormedD(8) [OF wf]
    by (auto simp: clearTimeout_def delete_conv' split: if_splits)
  show "\<And>i request. map_of (pendingRequests ?s) i = Some request \<Longrightarrow>
            \<exists>tm. map_of (timers ?s) (pr_timeout request) = Some tm
                  \<and> tm_messageId tm = i \<and> tm_promise tm = pr_promise request"
    using wellFormedD(9) [OF wf] other
    by (auto simp: clearTimeout_def delete_conv' split: if_splits)
qed


text \<open>Disarming the timer of a pending request, deleting its id and settling its promise.\<close>

lemma wellFormed_timer_gone:
  assumes wf: "wellFormed s"
    and tm: "map_of (timers s) t = Some tm"
  shows "wellFormed ((clearTimeout t s)
           \<lparr>pendingRequests := AList.delete (tm_messageId tm) (pendingRequests s)\<rparr>)"
    and "wellFormed (settle (tm_promise tm) outcome ((clearTimeout t s)
           \<lparr>pendingRequests := AList.delete (tm_messageId tm) (pendingRequests s)\<rparr>))"
proof -
  let ?s = "(clearTimeout t s)
           \<lparr>pendingRequests := AList.delete (tm_messageId tm) (pendingRequests s)\<rparr>"
  show wf1: "wellFormed ?s"
  proof (rule wellFormed_drop [OF wf])
    fix i request
    assume "i \<noteq> tm_messageId tm" "map_of (pendingRequests s) i = Some request"
    with wellFormedD(9) [OF wf] tm show "pr_timeout request \<noteq> t" by fastforce
  qed
  show "wellFormed (settle (tm_promise tm) outcome ?s)"
  proof (rule wellFormed_settle [OF wf1])
    show "tm_promise tm < nextPromise ?s"
      using wellFormedD(6) [OF wf tm] by (simp add: clearTimeout_def)
    show "tm_promise tm \<notin> fst ` set (promises ?s)"
      using wellFormedD(7) [OF wf tm] by (simp add: clearTimeout_def)
    fix u tm'
    assume "map_of (timers ?s) u = Some tm'"
    then have "u \<noteq> t" "map_of (timers s) u = Some tm'"
      by (auto simp: clearTimeout_def delete_conv' split: if_splits)
    with wellFormedD(8) [OF wf _ tm] show "tm_promise tm' \<noteq> tm_promise tm" by blast
  qed
qed

lemma wellFormed_requestTimeout:
  "wellFormed s \<Longrightarrow> wellFormed (requestTimeout t now s)"
  by (simp add: requestTimeout_def wellFormed_timer_gone split: option.splits)

lemma wellFormed_request_gone:
  assumes wf: "wellFormed s"
    and req: "map_of (pendingRequests s) i = Some request"
  shows "wellFormed ((clearTimeout (pr_timeout request) s)
           \<lparr>pendingRequests := AList.delete i (pendingRequests s)\<rparr>)"
    and "wellFormed (settle (pr_promise request) outcome ((clearTimeout (pr_timeout request) s)
           \<lparr>pendingRequests := AList.delete i (pendingRequests s)\<rparr>))"
proof -
  from wellFormedD(9) [OF wf req] obtain tm where
    tm: "map_of (timers s) (pr_timeout request) = Some tm"
    and eq: "tm_messageId tm = i" "tm_promise tm = pr_promise request" by blast
  from wellFormed_timer_gone [OF wf tm] eq
  show "wellFormed ((clearTimeout (pr_timeout request) s)
           \<lparr>pendingRequests := AList.delete i (pendingRequests s)\<rparr>)"
    and "wellFormed (settle (pr_promise request) outcome ((clearTimeout (pr_timeout request) s)
           \<lparr>pendingRequests := AList.delete i (pendingRequests s)\<rparr>))"
    by simp_all
qed

lemma wellFormed_cong:
  "pendingRequests s' = pendingRequests s \<Longrightarrow> timers s' = timers s \<Longrightarrow>
   promises s' = promises s \<Longrightarrow> nextPromise s' = nextPromise s \<Longrightarrow>
   nextTimer s' = nextTimer s \<Longrightarrow> wellFormed s' = wellFormed s"
  by (simp only: wellFormed_def)

lemma wellFormed_log:
  "wellFormed (s\<lparr>dispatched := d\<rparr>) = wellFormed s"
  "wellFormed (s\<lparr>unhandled := u\<rparr>) = wellFormed s"
  "wellFormed (s\<lparr>websocket := w\<rparr>) = wellFormed s"
  "wellFormed (s\<lparr>connected := c, fileWatcher := f\<rparr>) = wellFormed s"
  "wellFormed (s\<lparr>outbox := ob\<rparr>) = wellFormed s"
  by (rule wellFormed_cong; simp)+

lemma wellFormed_handleServerMessage:
  assumes wf: "wellFormed s"
  shows "wellFormed (handleServerMessage message s)"
proof (cases "\<exists>i request. msg_id message = Some i \<and> i \<noteq> []
                 \<and> map_of (pendingRequests s) i = Some request")
  case True
  then obtain i request where "msg_id message = Some i" "i \<noteq> []"
    and req: "map_of (pendingRequests s) i = Some request" by blast
  then show ?thesis
    using wellFormed_request_gone [OF wf req]
    by (simp add: handleServerMessage_def Let_def split: option.splits)
next
  case False
  then have "(case msg_id message of
              None \<Rightarrow> None
            | Some i \<Rightarrow> if i = [] then None
                       else map_option (\<lambda>request. (i, request)) (map_of (pendingRequests s) i))
             = None"
    by (auto split: option.splits)
  then show ?thesis
    using wf by (simp add: handleServerMessage_def wellFormed_log)
qed


lemma timer_fresh: "wellFormed s \<Longrightarrow> map_of (timers s) (nextTimer s) = None"
  using wellFormedD(5) [of s "nextTimer s"] by (cases "map_of (timers s) (nextTimer s)") auto

text \<open>Creating the promise of a call.\<close>

lemma wellFormed_newPromise:
  assumes wf: "wellFormed s"
  shows "wellFormed (s\<lparr>nextPromise := Suc (nextPromise s)\<rparr>)"
proof (rule wellFormedI)
  let ?s = "s\<lparr>nextPromise := Suc (nextPromise s)\<rparr>"
  show "\<And>p. p \<in> fst ` set (promises ?s) \<Longrightarrow> p < nextPromise ?s"
    using wellFormedD(4) [OF wf] by (auto simp: less_Suc_eq)
  show "\<And>t tm. map_of (timers ?s) t = Some tm \<Longrightarrow>
            t < nextTimer ?s \<and> tm_promise tm < nextPromise ?s
            \<and> tm_promise tm \<notin> fst ` set (promises ?s)"
    using wellFormedD(5,6,7) [OF wf] by (auto simp: less_Suc_eq)
qed (use wellFormedD [OF wf] in auto)

text \<open>Arming the timer and registering the request.\<close>

lemma wellFormed_register:
  assumes wf: "wellFormed s"
    and p: "p < nextPromise s" "p \<notin> fst ` set (promises s)"
    and free: "\<And>t tm. map_of (timers s) t = Some tm \<Longrightarrow> tm_promise tm \<noteq> p"
  shows "wellFormed (s\<lparr>nextTimer := Suc (nextTimer s),
            timers := AList.update (nextTimer s)
                        \<lparr>tm_messageId = x, tm_promise = p, tm_due = due\<rparr> (timers s),
            pendingRequests := AList.update x \<lparr>pr_promise = p, pr_timeout = nextTimer s\<rparr>
                                 (pendingRequests s)\<rparr>)"
    (is "wellFormed ?s")
proof (rule wellFormedI)
  note fresh = timer_fresh [OF wf]
  from p(2) have p': "\<And>b. (p, b) \<notin> set (promises s)" by force
  have armed: "pr_timeout request \<noteq> nextTimer s"
    if "map_of (pendingRequests s) i = Some request" for i request
  proof
    assume "pr_timeout request = nextTimer s"
    with wellFormedD(9) [OF wf that] fresh show False by simp
  qed
  show "distinct (map fst (pendingRequests ?s))"
    using wellFormedD(1) [OF wf] by (simp add: distinct_update)
  show "distinct (map fst (timers ?s))"
    using wellFormedD(2) [OF wf] by (simp add: distinct_update)
  show "distinct (map fst (promises ?s))"
    using wellFormedD(3) [OF wf] by simp
  show "\<And>q. q \<in> fst ` set (promises ?s) \<Longrightarrow> q < nextPromise ?s"
    using wellFormedD(4) [OF wf] by simp
  show "\<And>t tm. map_of (timers ?s) t = Some tm \<Longrightarrow>
            t < nextTimer ?s \<and> tm_promise tm < nextPromise ?s
            \<and> tm_promise tm \<notin> fst ` set (promises ?s)"
    using wellFormedD(5,6,7) [OF wf] p(1) p'
    by (auto simp: update_conv' less_Suc_eq split: if_splits)
  show "\<And>t t' tm tm'. map_of (timers ?s) t = Some tm \<Longrightarrow> map_of (timers ?s) t' = Some tm'
            \<Longrightarrow> tm_promise tm = tm_promise tm' \<Longrightarrow> t = t'"
    using wellFormedD(8) [OF wf] free
    by (auto simp: update_conv' split: if_splits; blast)
  show "\<And>i request. map_of (pendingRequests ?s) i = Some request \<Longrightarrow>
            \<exists>tm. map_of (timers ?s) (pr_timeout request) = Some tm
                  \<and> tm_messageId tm = i \<and> tm_promise tm = pr_promise request"
    using wellFormedD(9) [OF wf] armed
    by (auto simp: update_conv' split: if_splits)
qed

lemma wellFormed_sendMessage:
  assumes wf: "wellFormed s"
  shows "wellFormed (snd (sendMessage message token now sendError s))"
proof -
  let ?p = "nextPromise s"
  let ?s0 = "s\<lparr>nextPromise := Suc ?p\<rparr>"
  have wf0: "wellFormed ?s0" by (rule wellFormed_newPromise [OF wf])
  have p: "?p < nextPromise ?s0" "?p \<notin> fst ` set (promises ?s0)"
    using wellFormedD(4) [OF wf, of ?p] by auto
  have free: "\<And>t tm. map_of (timers ?s0) t = Some tm \<Longrightarrow> tm_promise tm \<noteq> ?p"
    using wellFormedD(6) [OF wf] by fastforce
  show ?thesis
  proof (cases "websocket s = Some OPEN")
    case False
    with wellFormed_settle [OF wf0 p free] show ?thesis
      by (simp add: sendMessage_def Let_def)
  next
    case True
    let ?s2 = "?s0\<lparr>nextTimer := Suc (nextTimer ?s0),
            timers := AList.update (nextTimer ?s0)
                        \<lparr>tm_messageId = token, tm_promise = ?p, tm_due = now + 30000\<rparr>
                        (timers ?s0),
            pendingRequests := AList.update token
                                 \<lparr>pr_promise = ?p, pr_timeout = nextTimer ?s0\<rparr>
                                 (pendingRequests ?s0)\<rparr>"
    have wf2: "wellFormed ?s2" by (rule wellFormed_register [OF wf0 p free])
    show ?thesis
    proof (cases sendError)
      case None
      with True wf2 show ?thesis
        by (simp add: sendMessage_def Let_def wellFormed_log)
    next
      case (Some e)
      have tm: "map_of (timers ?s2) (nextTimer s)
                 = Some \<lparr>tm_messageId = token, tm_promise = ?p, tm_due = now + 30000\<rparr>"
        by (simp add: update_conv')
      from wellFormed_timer_gone(2) [OF wf2 tm] Some True show ?thesis
        by (simp add: sendMessage_def Let_def)
    qed
  qed
qed

lemma wellFormed_rejectAll:
  "wellFormed (s\<lparr>pendingRequests := entries\<rparr>) \<Longrightarrow>
     wellFormed ((foldl rejectClosed s (map snd entries))\<lparr>pendingRequests := []\<rparr>)"
proof (induction entries arbitrary: s)
  case Nil
  then show ?case by simp
next
  case (Cons e entries)
  let ?s = "s\<lparr>pendingRequests := e # entries\<rparr>"
  have req: "map_of (pendingRequests ?s) (fst e) = Some (snd e)" by simp
  have "fst e \<notin> fst ` set entries"
    using wellFormedD(1) [OF Cons.prems] by simp
  then have del: "AList.delete (fst e) (pendingRequests ?s) = entries" by simp
  have "(rejectClosed s (snd e))\<lparr>pendingRequests := entries\<rparr>
          = settle (pr_promise (snd e)) (Rejected ConnectionClosed)
              ((clearTimeout (pr_timeout (snd e)) ?s)
                 \<lparr>pendingRequests := AList.delete (fst e) (pendingRequests ?s)\<rparr>)"
    unfolding del by (simp add: rejectClosed_def settle_def clearTimeout_def)
  with wellFormed_request_gone(2) [OF Cons.prems req, of "Rejected ConnectionClosed"]
  have "wellFormed ((rejectClosed s (snd e))\<lparr>pendingRequests := entries\<rparr>)"
    by simp
  from Cons.IH [OF this] show ?case by simp
qed

lemma wellFormed_handleDisconnection:
  assumes "wellFormed s"
  shows "wellFormed (handleDisconnection s)"
proof -
  let ?s1 = "s\<lparr>connected := False, fileWatcher := False\<rparr>"
  have "wellFormed (?s1\<lparr>pendingRequests := pendingRequests ?s1\<rparr>)"
    using assms by (simp add: wellFormed_log)
  from wellFormed_rejectAll [OF this] show ?thesis
    by (simp add: handleDisconnection_def Let_def)
qed

lemma wellFormed_connStep: "wellFormed s \<Longrightarrow> wellFormed (connStep s ev)"
  by (cases ev)
     (simp_all add: wellFormed_sendMessage wellFormed_handleServerMessage
        wellFormed_requestTimeout wellFormed_handleDisconnection wellFormed_log disconnect_def
        wellFormed_cong [of "s\<lparr>websocket := None, fileWatcher := False, connected := False\<rparr>" s])

lemma wellFormed_foldl: "wellFormed s \<Longrightarrow> wellFormed (foldl connStep s evs)"
  by (induction evs arbitrary: s) (simp_all add: wellFormed_connStep)

lemma wellFormed_connRun: "wellFormed (connRun events)"
  unfolding connRun_def
  by (rule wellFormed_foldl) (simp add: wellFormed_def initialConnection_def)


subsection \<open>Correlation ids\<close>

lemma update_new_key: "k \<notin> fst ` set al \<Longrightarrow> AList.update k v al = al @ [(k, v)]"
  by (induction al) auto

lemma sendMessage_open:
  "websocket s = Some OPEN \<Longrightarrow>
     sendMessage message token now None s =
       (nextPromise s,
        s\<lparr>nextPromise := Suc (nextPromise s),
          nextTimer := Suc (nextTimer s),
          timers := AList.update (nextTimer s)
                      \<lparr>tm_messageId = token, tm_promise = nextPromise s, tm_due = now + 30000\<rparr>
                      (timers s),
          pendingRequests := AList.update token
                      \<lparr>pr_promise = nextPromise s, pr_timeout = nextTimer s\<rparr>
                      (pendingRequests s),
          outbox := outbox s @ [message\<lparr>msg_id := Some token\<rparr>]\<rparr>)"
  by (simp add: sendMessage_def Let_def)

text \<open>
  Claim C3, as amended. \<open>sendMessage\<close> takes the random token as the correlation id
  without looking at the pending requests. The map of pending requests has one entry per
  id at any time. A send on an open socket attaches the token to the message, registers
  the new request under it with a promise and a timer that were not in use, and leaves
  the entries of all other ids alone; when the token is not pending, the map grows by
  exactly that entry. When the token is pending, the entry of the earlier request is
  replaced: nothing makes the id unique among the pending requests.
\<close>

theorem correlation_id_is_token:
  "distinct (map fst (pendingRequests (connRun events)))
   \<and> (websocket (connRun events) = Some OPEN \<longrightarrow>
        last (outbox (snd (sendMessage message token now None (connRun events))))
          = message\<lparr>msg_id := Some token\<rparr>
        \<and> map_of (pendingRequests (snd (sendMessage message token now None (connRun events)))) token
          = Some \<lparr>pr_promise = nextPromise (connRun events),
                  pr_timeout = nextTimer (connRun events)\<rparr>
        \<and> (i \<noteq> token \<longrightarrow>
             map_of (pendingRequests (snd (sendMessage message token now None (connRun events)))) i
             = map_of (pendingRequests (connRun events)) i)
        \<and> (token \<notin> fst ` set (pendingRequests (connRun events)) \<longrightarrow>
             pendingRequests (snd (sendMessage message token now None (connRun events)))
             = pendingRequests (connRun events)
                 @ [(token, \<lparr>pr_promise = nextPromise (connRun events),
                              pr_timeout = nextTimer (connRun events)\<rparr>)])
        \<and> nextPromise (connRun events) \<notin> fst ` set (promises (connRun events))
        \<and> map_of (timers (connRun events)) (nextTimer (connRun events)) = None)"
proof -
  have wf: "wellFormed (connRun events)" by (rule wellFormed_connRun)
  have a: "distinct (map fst (pendingRequests (connRun events)))"
    by (rule wellFormedD(1) [OF wf])
  have b: "nextPromise (connRun events) \<notin> fst ` set (promises (connRun events))"
    using wellFormedD(4) [OF wf, of "nextPromise (connRun events)"] by auto
  have c: "map_of (timers (connRun events)) (nextTimer (connRun events)) = None"
    by (rule timer_fresh [OF wf])
  from a b c show ?thesis
    by (simp add: sendMessage_open update_conv' update_new_key)
qed

lemma one_pending:
  "connRun [SocketChanged (Some OPEN),
            Send \<lparr>msg_type = ''build_project'', msg_data = JObject [], msg_id = None\<rparr>
              ''k3x9'' 0 None]
   = initialConnection
       \<lparr>websocket := Some OPEN,
        pendingRequests := [(''k3x9'', \<lparr>pr_promise = 0, pr_timeout = 0\<rparr>)],
        timers := [(0, \<lparr>tm_messageId = ''k3x9'', tm_promise = 0, tm_due = 30000\<rparr>)],
        nextPromise := 1, nextTimer := 1,
        outbox := [\<lparr>msg_type = ''build_project'', msg_data = JObject [],
                    msg_id = Some ''k3x9''\<rparr>]\<rparr>"
  by (simp add: connRun_def initialConnection_def sendMessage_def Let_def)

theorem correlation_id_is_token_witness:
  "websocket (connRun [SocketChanged (Some OPEN),
            Send \<lparr>msg_type = ''build_project'', msg_data = JObject [], msg_id = None\<rparr>
              ''k3x9'' 0 None]) = Some OPEN
   \<and> ''q7'' \<notin> fst ` set (pendingRequests (connRun [SocketChanged (Some OPEN),
            Send \<lparr>msg_type = ''build_project'', msg_data = JObject [], msg_id = None\<rparr>
              ''k3x9'' 0 None]))
   \<and> pendingRequests (snd (sendMessage
          \<lparr>msg_type = ''run_project'', msg_data = JObject [], msg_id = None\<rparr> ''q7'' 5 None
          (connRun [SocketChanged (Some OPEN),
            Send \<lparr>msg_type = ''build_project'', msg_data = JObject [], msg_id = None\<rparr>
              ''k3x9'' 0 None])))
     = [(''k3x9'', \<lparr>pr_promise = 0, pr_timeout = 0\<rparr>),
        (''q7'', \<lparr>pr_promise = 1, pr_timeout = 1\<rparr>)]
   \<and> map_of (pendingRequests (snd (sendMessage
          \<lparr>msg_type = ''run_project'', msg_data = JObject [], msg_id = None\<rparr> ''q7'' 5 None
          (connRun [SocketChanged (Some OPEN),
            Send \<lparr>msg_type = ''build_project'', msg_data = JObject [], msg_id = None\<rparr>
              ''k3x9'' 0 None])))) ''k3x9''
     = Some \<lparr>pr_promise = 0, pr_timeout = 0\<rparr>"
  using correlation_id_is_token [where events = "[SocketChanged (Some OPEN),
            Send \<lparr>msg_type = ''build_project'', msg_data = JObject [], msg_id = None\<rparr>
              ''k3x9'' 0 None]"
      and message = "\<lparr>msg_type = ''run_project'', msg_data = JObject [], msg_id = None\<rparr>"
      and token = "''q7''" and now = 5 and i = "''k3x9''"]
  by (simp add: one_pending initialConnection_def)

text \<open>
  The claim as stated fails: while the request with id \<open>k3x9\<close> is pending and
  unsettled, a second send whose token is \<open>k3x9\<close> again goes out under the same id and
  takes over the entry; the first request is left with its timer only.
\<close>

theorem correlation_id_reused_counterexample:
  "''k3x9'' \<in> fst ` set (pendingRequests (connRun [SocketChanged (Some OPEN),
            Send \<lparr>msg_type = ''build_project'', msg_data = JObject [], msg_id = None\<rparr>
              ''k3x9'' 0 None]))
   \<and> promises (connRun [SocketChanged (Some OPEN),
            Send \<lparr>msg_type = ''build_project'', msg_data = JObject [], msg_id = None\<rparr>
              ''k3x9'' 0 None]) = []
   \<and> sendMessage \<lparr>msg_type = ''run_project'', msg_data = JObject [], msg_id = None\<rparr>
        ''k3x9'' 5 None
        (connRun [SocketChanged (Some OPEN),
            Send \<lparr>msg_type = ''build_project'', msg_data = JObject [], msg_id = None\<rparr>
              ''k3x9'' 0 None])
     = (1, initialConnection
       \<lparr>websocket := Some OPEN,
        pendingRequests := [(''k3x9'', \<lparr>pr_promise = 1, pr_timeout = 1\<rparr>)],
        timers := [(0, \<lparr>tm_messageId = ''k3x9'', tm_promise = 0, tm_due = 30000\<rparr>),
                   (1, \<lparr>tm_messageId = ''k3x9'', tm_promise = 1, tm_due = 30005\<rparr>)],
        nextPromise := 2, nextTimer := 2,
        outbox := [\<lparr>msg_type = ''build_project'', msg_data = JObject [],
                    msg_id = Some ''k3x9''\<rparr>,
                   \<lparr>msg_type = ''run_project'', msg_data = JObject [],
                    msg_id = Some ''k3x9''\<rparr>]\<rparr>)"
  by (simp add: one_pending initialConnection_def sendMessage_def Let_def)


subsection \<open>Timeouts and late replies\<close>

lemma late_reply:
  "msg_id reply = Some i \<Longrightarrow> map_of (pendingRequests s) i = None \<Longrightarrow>
     handleServerMessage reply s =
       (if msg_type reply \<in> set messageHandlers
        then s\<lparr>dispatched := dispatched s @ [(msg_type reply, msg_data reply)]\<rparr>
        else s\<lparr>unhandled := unhandled s @ [msg_type reply]\<rparr>)"
  by (simp add: handleServerMessage_def)

lemma requestTimeout_due:
  "map_of (timers s) t = Some tm \<Longrightarrow> tm_due tm \<le> later \<Longrightarrow>
     requestTimeout t later s =
       s\<lparr>timers := AList.delete t (timers s),
         pendingRequests := AList.delete (tm_messageId tm) (pendingRequests s),
         promises := promises s @ [(tm_promise tm, Rejected Timeout)]\<rparr>"
  by (simp add: requestTimeout_def settle_def clearTimeout_def)

text \<open>
  Claim C6. A request sent on an open socket is registered with a timer due 30000 ms
  after the send. In every reachable state each pending request has its timer armed, and
  the promise of an armed timer is unsettled. Before it is due the timer does nothing;
  when it fires it rejects the promise with \<open>Timeout\<close>, removes the id from the
  pending requests and is spent. A reply that then arrives for that id settles nothing
  and leaves the bookkeeping alone: it goes to the push handler of its type, or is
  logged as unhandled. No promise is ever settled twice.
\<close>

theorem request_times_out:
  "(websocket (connRun events) = Some OPEN \<longrightarrow>
      map_of (pendingRequests (snd (sendMessage message token now None (connRun events)))) token
        = Some \<lparr>pr_promise = nextPromise (connRun events),
                pr_timeout = nextTimer (connRun events)\<rparr>
      \<and> map_of (timers (snd (sendMessage message token now None (connRun events))))
            (nextTimer (connRun events))
        = Some \<lparr>tm_messageId = token, tm_promise = nextPromise (connRun events),
                tm_due = now + 30000\<rparr>)
   \<and> (map_of (pendingRequests (connRun events)) i = Some request \<longrightarrow>
        (\<exists>tm. map_of (timers (connRun events)) (pr_timeout request) = Some tm
              \<and> tm_messageId tm = i \<and> tm_promise tm = pr_promise request))
   \<and> (map_of (timers (connRun events)) t = Some tm \<longrightarrow>
        tm_promise tm \<notin> fst ` set (promises (connRun events))
        \<and> (early < tm_due tm \<longrightarrow> requestTimeout t early (connRun events) = connRun events)
        \<and> (tm_due tm \<le> later \<longrightarrow>
             promises (requestTimeout t later (connRun events))
               = promises (connRun events) @ [(tm_promise tm, Rejected Timeout)]
             \<and> map_of (pendingRequests (requestTimeout t later (connRun events)))
                  (tm_messageId tm) = None
             \<and> map_of (timers (requestTimeout t later (connRun events))) t = None
             \<and> (msg_id reply = Some (tm_messageId tm) \<longrightarrow>
                  handleServerMessage reply (requestTimeout t later (connRun events))
                  = (if msg_type reply \<in> set messageHandlers
                     then (requestTimeout t later (connRun events))
                            \<lparr>dispatched :=
                               dispatched (requestTimeout t later (connRun events))
                                 @ [(msg_type reply, msg_data reply)]\<rparr>
                     else (requestTimeout t later (connRun events))
                            \<lparr>unhandled :=
                               unhandled (requestTimeout t later (connRun events))
                                 @ [msg_type reply]\<rparr>))))
   \<and> distinct (map fst (promises (connRun events)))"
proof -
  let ?s = "connRun events"
  have wf: "wellFormed ?s" by (rule wellFormed_connRun)
  have a: "websocket ?s = Some OPEN \<longrightarrow>
      map_of (pendingRequests (snd (sendMessage message token now None ?s))) token
        = Some \<lparr>pr_promise = nextPromise ?s, pr_timeout = nextTimer ?s\<rparr>
      \<and> map_of (timers (snd (sendMessage message token now None ?s))) (nextTimer ?s)
        = Some \<lparr>tm_messageId = token, tm_promise = nextPromise ?s, tm_due = now + 30000\<rparr>"
    by (simp add: sendMessage_open update_conv')
  have b: "map_of (pendingRequests ?s) i = Some request \<longrightarrow>
        (\<exists>tm. map_of (timers ?s) (pr_timeout request) = Some tm
              \<and> tm_messageId tm = i \<and> tm_promise tm = pr_promise request)"
    using wellFormedD(9) [OF wf] by blast
  have c: "tm_promise tm \<notin> fst ` set (promises ?s)
        \<and> (early < tm_due tm \<longrightarrow> requestTimeout t early ?s = ?s)
        \<and> (tm_due tm \<le> later \<longrightarrow>
             promises (requestTimeout t later ?s)
               = promises ?s @ [(tm_promise tm, Rejected Timeout)]
             \<and> map_of (pendingRequests (requestTimeout t later ?s)) (tm_messageId tm) = None
             \<and> map_of (timers (requestTimeout t later ?s)) t = None
             \<and> (msg_id reply = Some (tm_messageId tm) \<longrightarrow>
                  handleServerMessage reply (requestTimeout t later ?s)
                  = (if msg_type reply \<in> set messageHandlers
                     then (requestTimeout t later ?s)
                            \<lparr>dispatched := dispatched (requestTimeout t later ?s)
                                 @ [(msg_type reply, msg_data reply)]\<rparr>
                     else (requestTimeout t later ?s)
                            \<lparr>unhandled := unhandled (requestTimeout t later ?s)
                                 @ [msg_type reply]\<rparr>)))"
    if tm: "map_of (timers ?s) t = Some tm"
  proof (intro conjI impI)
    show "tm_promise tm \<notin> fst ` set (promises ?s)"
      by (rule wellFormedD(7) [OF wf tm])
    show "requestTimeout t early ?s = ?s" if "early < tm_due tm"
      using tm that by (simp add: requestTimeout_def)
    assume due: "tm_due tm \<le> later"
    show "promises (requestTimeout t later ?s)
               = promises ?s @ [(tm_promise tm, Rejected Timeout)]"
      by (simp add: requestTimeout_due [OF tm due])
    show gone: "map_of (pendingRequests (requestTimeout t later ?s)) (tm_messageId tm) = None"
      by (simp add: requestTimeout_due [OF tm due] delete_conv')
    show "map_of (timers (requestTimeout t later ?s)) t = None"
      by (simp add: requestTimeout_due [OF tm due] delete_conv')
    show "handleServerMessage reply (requestTimeout t later ?s)
                  = (if msg_type reply \<in> set messageHandlers
                     then (requestTimeout t later ?s)
                            \<lparr>dispatched := dispatched (requestTimeout t later ?s)
                                 @ [(msg_type reply, msg_data reply)]\<rparr>
                     else (requestTimeout t later ?s)
                            \<lparr>unhandled := unhandled (requestTimeout t later ?s)
                                 @ [msg_type reply]\<rparr>)"
      if "msg_id reply = Some (tm_messageId tm)"
      by (rule late_reply [OF that gone])
  qed
  have d: "distinct (map fst (promises ?s))" by (rule wellFormedD(3) [OF wf])
  from a b c d show ?thesis by blast
qed

theorem request_times_out_witness:
  "websocket (connRun [SocketChanged (Some OPEN)]) = Some OPEN
   \<and> snd (sendMessage \<lparr>msg_type = ''build_project'', msg_data = JObject [], msg_id = None\<rparr>
             ''k3x9'' 0 None (connRun [SocketChanged (Some OPEN)]))
     = connRun [SocketChanged (Some OPEN),
            Send \<lparr>msg_type = ''build_project'', msg_data = JObject [], msg_id = None\<rparr>
              ''k3x9'' 0 None]
   \<and> map_of (pendingRequests (connRun [SocketChanged (Some OPEN),
            Send \<lparr>msg_type = ''build_project'', msg_data = JObject [], msg_id = None\<rparr>
              ''k3x9'' 0 None])) ''k3x9'' = Some \<lparr>pr_promise = 0, pr_timeout = 0\<rparr>
   \<and> map_of (timers (connRun [SocketChanged (Some OPEN),
            Send \<lparr>msg_type = ''build_project'', msg_data = JObject [], msg_id = None\<rparr>
              ''k3x9'' 0 None])) 0
      = Some \<lparr>tm_messageId = ''k3x9'', tm_promise = 0, tm_due = 30000\<rparr>
   \<and> requestTimeout 0 29999 (connRun [SocketChanged (Some OPEN),
            Send \<lparr>msg_type = ''build_project'', msg_data = JObject [], msg_id = None\<rparr>
              ''k3x9'' 0 None])
      = connRun [SocketChanged (Some OPEN),
            Send \<lparr>msg_type = ''build_project'', msg_data = JObject [], msg_id = None\<rparr>
              ''k3x9'' 0 None]
   \<and> promises (requestTimeout 0 30000 (connRun [SocketChanged (Some OPEN),
            Send \<lparr>msg_type = ''build_project'', msg_data = JObject [], msg_id = None\<rparr>
              ''k3x9'' 0 None]))
      = [(0, Rejected Timeout)]
   \<and> promises (handleServerMessage
         \<lparr>msg_type = ''build_project_response'', msg_data = JObject [], msg_id = Some ''k3x9''\<rparr>
         (requestTimeout 0 30000 (connRun [SocketChanged (Some OPEN),
            Send \<lparr>msg_type = ''build_project'', msg_data = JObject [], msg_id = None\<rparr>
              ''k3x9'' 0 None])))
      = [(0, Rejected Timeout)]
   \<and> unhandled (handleServerMessage
         \<lparr>msg_type = ''build_project_response'', msg_data = JObject [], msg_id = Some ''k3x9''\<rparr>
         (requestTimeout 0 30000 (connRun [SocketChanged (Some OPEN),
            Send \<lparr>msg_type = ''build_project'', msg_data = JObject [], msg_id = None\<rparr>
              ''k3x9'' 0 None])))
      = [''build_project_response'']"
proof -
  let ?m = "\<lparr>msg_type = ''build_project'', msg_data = JObject [], msg_id = None\<rparr>"
  let ?r = "\<lparr>msg_type = ''build_project_response'', msg_data = JObject [],
             msg_id = Some ''k3x9''\<rparr>"
  let ?s = "connRun [SocketChanged (Some OPEN), Send ?m ''k3x9'' 0 None]"
  let ?tm = "\<lparr>tm_messageId = ''k3x9'', tm_promise = 0, tm_due = 30000\<rparr>"
  have h0: "websocket (connRun [SocketChanged (Some OPEN)]) = Some OPEN"
    by (simp add: connRun_def)
  have s0: "snd (sendMessage ?m ''k3x9'' 0 None (connRun [SocketChanged (Some OPEN)])) = ?s"
    by (simp add: connRun_def)
  have h1: "map_of (pendingRequests ?s) ''k3x9'' = Some \<lparr>pr_promise = 0, pr_timeout = 0\<rparr>"
    by (simp add: one_pending)
  have h2: "map_of (timers ?s) 0 = Some ?tm" by (simp add: one_pending)
  have h3: "(29999::int) < tm_due ?tm" "tm_due ?tm \<le> (30000::int)"
    "msg_id ?r = Some (tm_messageId ?tm)" by simp_all
  have p0: "promises ?s = []" by (simp add: one_pending initialConnection_def)
  note inst = request_times_out [where events = "[SocketChanged (Some OPEN), Send ?m ''k3x9'' 0 None]"
      and i = "''k3x9''" and request = "\<lparr>pr_promise = 0, pr_timeout = 0\<rparr>"
      and t = 0 and tm = ?tm and early = 29999 and later = 30000 and reply = ?r]
  from inst h2 h3 have e: "requestTimeout 0 29999 ?s = ?s" by blast
  from inst h2 h3 p0 have f: "promises (requestTimeout 0 30000 ?s) = [(0, Rejected Timeout)]"
    by simp
  from inst h2 h3 have g: "handleServerMessage ?r (requestTimeout 0 30000 ?s)
       = (if msg_type ?r \<in> set messageHandlers
          then (requestTimeout 0 30000 ?s)\<lparr>dispatched := dispatched (requestTimeout 0 30000 ?s)
                 @ [(msg_type ?r, msg_data ?r)]\<rparr>
          else (requestTimeout 0 30000 ?s)\<lparr>unhandled := unhandled (requestTimeout 0 30000 ?s)
                 @ [msg_type ?r]\<rparr>)"
    by blast
  have u: "unhandled (requestTimeout 0 30000 ?s) = []"
    by (simp add: one_pending requestTimeout_def settle_def clearTimeout_def
          initialConnection_def)
  from g f u have k: "promises (handleServerMessage ?r (requestTimeout 0 30000 ?s))
                       = [(0, Rejected Timeout)]"
    "unhandled (handleServerMessage ?r (requestTimeout 0 30000 ?s)) = [''build_project_response'']"
    by (simp_all add: messageHandlers_def)
  from h0 s0 h1 h2 e f k show ?thesis by blast
qed

end
